theory Spec2Isabelle
  imports Main "HOL-Library.Word" "HOL-Library.Signed_Division" "HOL-Library.Log_Nat"
begin

section \<open>Machine integers and runtime failures of the Go program\<close>

text \<open>
  Go's \<open>int64\<close> is a 64-bit word: \<open>+\<close> and \<open>-\<close> wrap around, comparison reads the word
  as two's complement. Go's \<open>int\<close> (part counts, slice counts, indices) is modelled as
  \<open>int\<close>; the program only compares and increments these values.
\<close>

type_synonym int64 = "64 word"

text \<open>Run-time panics of the Go runtime that the modelled code can reach.\<close>

datatype go_panic =
    MakeLenOutOfRange      \<comment> \<open>\<open>make([]T, n)\<close> with \<open>n < 0\<close>\<close>
  | MakechanSizeOutOfRange \<comment> \<open>\<open>make(chan T, n)\<close> with \<open>n < 0\<close>\<close>
  | IntegerDivideByZero    \<comment> \<open>integer \<open>/\<close> with a zero divisor\<close>
  | IndexOutOfRange        \<comment> \<open>\<open>xs[i]\<close> with \<open>i\<close> outside the slice\<close>

text \<open>Go's \<open>/\<close> on \<open>int64\<close> truncates towards zero; a zero divisor panics before it is reached.\<close>

definition div_int64 :: "int64 \<Rightarrow> int64 \<Rightarrow> int64" where
  "div_int64 a b = word_of_int (sint a sdiv sint b)"

section \<open>utils/file/download.go: data model\<close>

record Part =
  Index :: int
  From :: int64
  To :: int64
  FilePath :: string

record DownloadPartSnapshot =
  snap_From :: int64
  snap_To :: int64
  snap_FilePath :: string

record DownloadSnapshot =
  FsID :: nat
  FileMd5 :: string
  SavePath :: string
  Recoverable :: bool
  VipType :: int
  DoneSize :: int64
  TotalSize :: int64
  PartSize :: int64
  TotalPart :: int
  DoneParts :: "DownloadPartSnapshot list"

definition zero_Part :: Part where
  "zero_Part = \<lparr>Index = 0, From = 0, To = 0, FilePath = []\<rparr>"

section \<open>Downloader.Download: part planning (download.go lines 122-143)\<close>

text \<open>
  The body of \<open>for i := range jobs\<close>: the job at index \<open>i\<close>, computed from the jobs
  filled so far. \<open>jobs[i-1]\<close> is only read for \<open>i > 0\<close>, where it is in range.
\<close>

definition plan_job :: "int64 \<Rightarrow> int64 \<Rightarrow> int \<Rightarrow> Part list \<Rightarrow> nat \<Rightarrow> Part" where
  "plan_job fileTotalSize eachSize totalPart jobs i =
     (let from = (if i = 0 then 0 else To (jobs ! (i - 1)) + 1);
          to = (if int i < totalPart - 1 then from + eachSize else fileTotalSize - 1)
      in \<lparr>Index = int i, From = from, To = to, FilePath = []\<rparr>)"

text \<open>The loop itself: \<open>jobs\<close> is updated in place, index by index.\<close>

function plan_loop :: "int64 \<Rightarrow> int64 \<Rightarrow> int \<Rightarrow> nat \<Rightarrow> Part list \<Rightarrow> Part list" where
  "plan_loop fileTotalSize eachSize totalPart i jobs =
     (if i < length jobs
      then plan_loop fileTotalSize eachSize totalPart (Suc i)
             (jobs[i := plan_job fileTotalSize eachSize totalPart jobs i])
      else jobs)"
  by pat_completeness auto
termination
  by (relation "measure (\<lambda>(fs, es, tp, i, jobs). length jobs - i)") auto

declare plan_loop.simps [simp del]

text \<open>
  Lines 122-143 for a part count that has already been fixed: \<open>make([]Part, TotalPart)\<close>
  panics on a negative count, the division on a zero count. The result is the job list
  together with \<open>eachSize\<close> (stored as \<open>snapshot.PartSize\<close>); \<open>snapshot.DoneParts[i]\<close>
  receives the \<open>From\<close> and \<open>To\<close> of \<open>jobs[i]\<close>.
\<close>

definition plan_parts :: "int64 \<Rightarrow> int \<Rightarrow> go_panic + (int64 \<times> Part list)" where
  "plan_parts fileTotalSize totalPart =
     (if totalPart < 0 then Inl MakeLenOutOfRange
      else if totalPart = 0 then Inl IntegerDivideByZero
      else let eachSize = div_int64 fileTotalSize (word_of_int totalPart)
           in Inr (eachSize,
                   plan_loop fileTotalSize eachSize totalPart 0
                     (replicate (nat totalPart) zero_Part)))"

definition snapshot_of_job :: "Part \<Rightarrow> DownloadPartSnapshot" where
  "snapshot_of_job p = \<lparr>snap_From = From p, snap_To = To p, snap_FilePath = []\<rparr>"

definition plan_snapshot :: "DownloadSnapshot \<Rightarrow> int \<Rightarrow> int64 \<Rightarrow> Part list \<Rightarrow> DownloadSnapshot" where
  "plan_snapshot snapshot totalPart eachSize jobs =
     snapshot\<lparr>PartSize := eachSize, TotalPart := totalPart,
               DoneParts := map snapshot_of_job jobs, Recoverable := True\<rparr>"

text \<open>The length of a part, as the code computes it everywhere: \<open>To - From + 1\<close>.\<close>

definition part_len :: "Part \<Rightarrow> int64" where
  "part_len p = To p - From p + 1"

section \<open>float64 arithmetic, as far as the program uses it\<close>

text \<open>
  The program computes part and slice counts as
  \<open>int(math.Ceil(float64(a) / float64(b)))\<close> with \<open>a\<close>, \<open>b\<close> of type \<open>int64\<close>. A finite
  float64 is modelled by the rational it denotes. Rounding is to the nearest value with a
  53-bit significand, ties to the even significand. The exponent range is not modelled:
  every value rounded here is an \<open>int64\<close> or a quotient of two of them, so its magnitude
  lies between \<open>2^-63\<close> and \<open>2^63\<close>, far from overflow and from subnormal numbers.
\<close>

datatype float64 = Finite rat | PosInf | NegInf | NaN

definition pow2 :: "int \<Rightarrow> rat" where
  "pow2 e = (if 0 \<le> e then 2 ^ nat e else 1 / 2 ^ nat (- e))"

text \<open>For \<open>x > 0\<close>, the exponent \<open>e\<close> with \<open>2^e \<le> x < 2^(e+1)\<close>.\<close>

definition binade :: "rat \<Rightarrow> int" where
  "binade x = (if 1 \<le> x then bitlen \<lfloor>x\<rfloor> - 1 else - bitlen (\<lceil>1 / x\<rceil> - 1))"

definition round_half_even :: "rat \<Rightarrow> int" where
  "round_half_even y =
     (let f = \<lfloor>y\<rfloor>; d = y - of_int f
      in if d < 1 / 2 then f
         else if 1 / 2 < d then f + 1
         else if even f then f else f + 1)"

text \<open>For \<open>x > 0\<close>: the spacing of float64 values around \<open>x\<close> is \<open>2^(e-52)\<close>.\<close>

definition round53 :: "rat \<Rightarrow> rat" where
  "round53 x = (let u = pow2 (binade x - 52) in of_int (round_half_even (x / u)) * u)"

definition round_float64 :: "rat \<Rightarrow> rat" where
  "round_float64 x = (if x = 0 then 0 else if 0 < x then round53 x else - round53 (- x))"

text \<open>The conversion \<open>float64(x)\<close> of an \<open>int64\<close>.\<close>

definition float64_of_int64 :: "int64 \<Rightarrow> rat" where
  "float64_of_int64 x = round_float64 (of_int (sint x))"

text \<open>The quotient \<open>a / b\<close> of two finite float64 values (IEEE 754: no panic on zero).\<close>

definition float64_div :: "rat \<Rightarrow> rat \<Rightarrow> float64" where
  "float64_div a b =
     (if b = 0 then (if a = 0 then NaN else if 0 < a then PosInf else NegInf)
      else Finite (round_float64 (a / b)))"

text \<open>\<open>math.Ceil\<close>: infinities and NaN are returned unchanged.\<close>

fun Ceil :: "float64 \<Rightarrow> float64" where
  "Ceil (Finite r) = Finite (of_int \<lceil>r\<rceil>)"
| "Ceil PosInf = PosInf"
| "Ceil NegInf = NegInf"
| "Ceil NaN = NaN"

text \<open>
  The conversion \<open>int(f)\<close> truncates towards zero. Where the value does not fit the
  (64-bit) \<open>int\<close>, and for infinities and NaN, the Go specification leaves the result to
  the implementation: the parameter \<open>oor\<close> gives the platform's result for such an \<open>f\<close>.
\<close>

definition int_of_float64 :: "(float64 \<Rightarrow> int) \<Rightarrow> float64 \<Rightarrow> int" where
  "int_of_float64 oor f =
     (case f of
        Finite r \<Rightarrow>
          (let t = (if 0 \<le> r then \<lfloor>r\<rfloor> else \<lceil>r\<rceil>)
           in if - (2 ^ 63) \<le> t \<and> t < 2 ^ 63 then t else oor f)
      | _ \<Rightarrow> oor f)"

text \<open>
  The amd64 implementation: the conversion instruction yields the "integer indefinite"
  value \<open>-2^63\<close> for every unrepresentable operand.
\<close>

definition oor_amd64 :: "float64 \<Rightarrow> int" where
  "oor_amd64 f = - (2 ^ 63)"

text \<open>The expression \<open>int(math.Ceil(float64(a) / float64(b)))\<close>.\<close>

definition ceil_div_float64 :: "(float64 \<Rightarrow> int) \<Rightarrow> int64 \<Rightarrow> int64 \<Rightarrow> int" where
  "ceil_div_float64 oor a b =
     int_of_float64 oor (Ceil (float64_div (float64_of_int64 a) (float64_of_int64 b)))"

section \<open>Downloader.Download: the part count (download.go lines 112-119)\<close>

text \<open>
  \<open>d.TotalPart\<close> as the code leaves it before planning. The integer division
  \<open>fileTotalSize/d.PartSize\<close> is evaluated only when \<open>d.TotalPart \<noteq> 0\<close> (\<open>||\<close>
  short-circuits) and panics on a zero part size.
\<close>

definition Download_TotalPart ::
  "(float64 \<Rightarrow> int) \<Rightarrow> int64 \<Rightarrow> int64 \<Rightarrow> int \<Rightarrow> go_panic + int" where
  "Download_TotalPart oor fileTotalSize partSize totalPart =
     (if totalPart \<noteq> 0 \<and> partSize = 0 then Inl IntegerDivideByZero
      else
        let tp = (if totalPart = 0 \<or> sint (div_int64 fileTotalSize partSize) < totalPart
                  then ceil_div_float64 oor fileTotalSize partSize
                  else totalPart);
            maxTotalPart = 100
        in Inr (if tp > maxTotalPart then maxTotalPart else tp))"

text \<open>
  Lines 112-143 together: the plan that \<open>Download\<close> works on. The snapshot it was given
  records the plan as \<open>plan_snapshot\<close> says (lines 124-126, 141-142, 146).
\<close>

definition Download_plan ::
  "(float64 \<Rightarrow> int) \<Rightarrow> int64 \<Rightarrow> int64 \<Rightarrow> int \<Rightarrow> go_panic + (int \<times> int64 \<times> Part list)" where
  "Download_plan oor fileTotalSize partSize totalPart =
     (case Download_TotalPart oor fileTotalSize partSize totalPart of
        Inl p \<Rightarrow> Inl p
      | Inr tp \<Rightarrow>
          (case plan_parts fileTotalSize tp of
             Inl p \<Rightarrow> Inl p
           | Inr (eachSize, jobs) \<Rightarrow> Inr (tp, eachSize, jobs)))"

section \<open>Downloader.ResumeDownload: the validation pass (download.go lines 277-295)\<close>

text \<open>The three outcomes of \<open>os.Stat\<close> that the code tells apart.\<close>

datatype stat_result = StatOk | StatNotExist | StatOtherError

text \<open>
  The loop \<open>for i, part := range snapshot.DoneParts\<close>. Iteration \<open>i\<close> reads and writes
  only \<open>DoneParts[i]\<close>, so the recursion walks the list and rebuilds it. The accumulator
  carries \<open>doneSize\<close> and \<open>delFiles\<close>.
\<close>

fun validate_loop ::
  "(string \<Rightarrow> stat_result) \<Rightarrow> DownloadPartSnapshot list \<Rightarrow> int64 \<Rightarrow> string list \<Rightarrow>
   DownloadPartSnapshot list \<times> int64 \<times> string list" where
  "validate_loop stat [] doneSize delFiles = ([], doneSize, delFiles)"
| "validate_loop stat (part # rest) doneSize delFiles =
     (if snap_FilePath part = [] then
        (case validate_loop stat rest doneSize delFiles of
           (ps, r) \<Rightarrow> (part # ps, r))
      else if stat (snap_FilePath part) = StatOk then
        (case validate_loop stat rest doneSize delFiles of
           (ps, r) \<Rightarrow> (part # ps, r))
      else
        (case validate_loop stat rest
                (doneSize - (snap_To part - snap_From part + 1))
                (if stat (snap_FilePath part) \<noteq> StatNotExist
                 then delFiles @ [snap_FilePath part] else delFiles) of
           (ps, r) \<Rightarrow> (part\<lparr>snap_FilePath := []\<rparr> # ps, r)))"

text \<open>
  Lines 252-295: the snapshot after the validation pass, and the files to delete.
  \<open>doneSize < 0\<close> compares \<open>int64\<close> values as signed.
\<close>

definition ResumeDownload_validate ::
  "(string \<Rightarrow> stat_result) \<Rightarrow> DownloadSnapshot \<Rightarrow> DownloadSnapshot \<times> string list" where
  "ResumeDownload_validate stat snapshot =
     (case validate_loop stat (DoneParts snapshot) (DoneSize snapshot) [] of
        (parts, doneSize, delFiles) \<Rightarrow>
          (snapshot\<lparr>Recoverable := True,
                    DoneParts := parts,
                    DoneSize := (if doneSize <s 0 then 0 else doneSize)\<rparr>,
           delFiles))"

section \<open>file/upload.go: data model and path sanitisation\<close>

record LocalFileInfo =
  Md5 :: string
  Size :: int64
  ModTime :: int64

record Uploader =
  AccessToken :: string
  Path :: string
  LocalFilePath :: string
  FileInfo :: LocalFileInfo
  SliceSize :: int64

text \<open>
  \<open>strings.Replace(s, old, "", -1)\<close> for a non-empty \<open>old\<close>: every non-overlapping
  occurrence of \<open>old\<close>, found from left to right, is dropped. Go strings are byte
  sequences, as \<open>string\<close> is here.
\<close>

function Replace_all_empty :: "string \<Rightarrow> string \<Rightarrow> string" where
  "Replace_all_empty old [] = []"
| "Replace_all_empty old (c # cs) =
     (if old \<noteq> [] \<and> take (length old) (c # cs) = old
      then Replace_all_empty old (drop (length old) (c # cs))
      else c # Replace_all_empty old cs)"
  by pat_completeness auto
termination
  by (relation "measure (\<lambda>(old, s). length s)") auto

text \<open>
  The Go literals of \<open>specialChars\<close>, byte for byte. In a Go interpreted string literal
  \<open>"\\\\"\<close> is two backslashes, \<open>"\\0"\<close> is a backslash followed by the digit 0, and
  \<open>"\\x0B"\<close> is the four characters backslash, x, 0, B; \<open>"\t"\<close>, \<open>"\n"\<close> and \<open>"\r"\<close>
  are the single bytes 0x09, 0x0A and 0x0D.
\<close>

definition specialChars :: "string list" where
  "specialChars =
     [[CHR 0x5C, CHR 0x5C], ''?'', ''|'', [CHR 0x22], ''>'', ''<'', '':'', ''*'',
      [CHR 0x09], [CHR 0x0A], [CHR 0x0D],
      [CHR 0x5C, CHR ''0''], [CHR 0x5C, CHR ''x'', CHR ''0'', CHR ''B'']]"

text \<open>The loop \<open>for _, specialChar := range specialChars\<close>, one replacement after the other.\<close>

definition handleSpecialChar :: "string \<Rightarrow> string" where
  "handleSpecialChar char = foldl (\<lambda>newChar specialChar. Replace_all_empty specialChar newChar) char specialChars"

definition zero_LocalFileInfo :: LocalFileInfo where
  "zero_LocalFileInfo = \<lparr>Md5 = [], Size = 0, ModTime = 0\<rparr>"

definition NewUploader :: "string \<Rightarrow> string \<Rightarrow> string \<Rightarrow> Uploader" where
  "NewUploader accessToken path localFilePath =
     \<lparr>AccessToken = accessToken,
      Path = handleSpecialChar path,
      LocalFilePath = localFilePath,
      FileInfo = zero_LocalFileInfo,
      SliceSize = 0\<rparr>"

text \<open>
  The sanitisation that the comment above \<open>handleSpecialChar\<close> and the specification
  describe: every occurrence of one of thirteen characters is removed.
\<close>

definition forbidden_chars :: "char list" where
  "forbidden_chars =
     [CHR 0x5C, CHR ''?'', CHR ''|'', CHR 0x22, CHR ''>'', CHR ''<'', CHR '':'', CHR ''*'',
      CHR 0x09, CHR 0x0A, CHR 0x0D, CHR 0x00, CHR 0x0B]"

definition strip_forbidden :: "string \<Rightarrow> string" where
  "strip_forbidden path = filter (\<lambda>c. c \<notin> set forbidden_chars) path"

section \<open>The retry loops: tryDownloadPart and TrySuperFile2Upload\<close>

text \<open>
  Errors are values. The two context errors are what \<open>ctx.Err()\<close> can return; every
  other error (transport, HTTP status, JSON, server \<open>errno\<close>, length mismatch) carries
  its message.
\<close>

datatype go_error = ContextCanceled | ContextDeadlineExceeded | OtherError string

text \<open>
  What a retry loop does to the outside, in order: it sleeps, it starts an attempt
  (\<open>Attempt i\<close> is the call with \<open>tryIter = i\<close>), it calls the caller's
  \<open>progressHandler\<close> with a delta, it removes a file.
\<close>

datatype event = Sleep nat | Attempt nat | Progress int64 | Remove string

text \<open>
  One call of \<open>downloadPart\<close>, seen from \<open>tryDownloadPart\<close>: the sizes it passed to the
  progress handler while streaming the body, the path of the temp file if it got as far
  as creating one, and the error. The part it returns is a copy of the part it was given,
  with \<open>FilePath\<close> set right after \<open>os.Create\<close> succeeded.
\<close>

record download_attempt =
  da_reports :: "int64 list"
  da_created :: "string option"
  da_err :: "go_error option"

text \<open>
  \<open>tryDownloadPart\<close> (download.go lines 419-445). \<open>downloadPart i\<close> is the outcome of the
  attempt with \<open>tryIter = i\<close>, \<open>ctx_Err i\<close> the value of \<open>ctx.Err()\<close> at the check that
  follows that attempt when it failed. The state of the loop is \<open>i\<close>, \<open>retPart\<close>, \<open>err\<close> and
  the local counter \<open>partDoneSize\<close>; the result is \<open>(retPart, err)\<close> with the events in
  the order they happen.
\<close>

definition downloadPart_retPart :: "Part \<Rightarrow> download_attempt \<Rightarrow> Part" where
  "downloadPart_retPart part a =
     (case da_created a of None \<Rightarrow> part | Some f \<Rightarrow> part\<lparr>FilePath := f\<rparr>)"

function tryDownloadPart_loop ::
  "(nat \<Rightarrow> download_attempt) \<Rightarrow> (nat \<Rightarrow> go_error option) \<Rightarrow> Part \<Rightarrow>
   nat \<Rightarrow> Part \<Rightarrow> go_error option \<Rightarrow> int64 \<Rightarrow> (Part \<times> go_error option) \<times> event list" where
  "tryDownloadPart_loop downloadPart ctx_Err part i retPart err partDoneSize =
     (if i < 10 then
        let sleep = (if i > 0 then [Sleep 6] else []);
            a = downloadPart i;
            partDoneSize' = foldl (+) partDoneSize (da_reports a);
            retPart' = downloadPart_retPart part a;
            err' = da_err a;
            run = sleep @ [Attempt i] @ map Progress (da_reports a)
        in if err' = None then ((retPart', err'), run)
           else
             let undo = (if FilePath retPart' \<noteq> [] then [Remove (FilePath retPart')] else [])
                          @ [Progress (- partDoneSize')]
             in if ctx_Err i \<noteq> None then ((retPart', err'), run @ undo)
                else (case tryDownloadPart_loop downloadPart ctx_Err part (Suc i) retPart' err' 0 of
                        (res, evs) \<Rightarrow> (res, run @ undo @ evs))
      else ((retPart, err), []))"
  by pat_completeness auto
termination
  by (relation "measure (\<lambda>(dp, c, p, i, rp, e, d). 10 - i)") auto

declare tryDownloadPart_loop.simps [simp del]

definition tryDownloadPart ::
  "(nat \<Rightarrow> download_attempt) \<Rightarrow> (nat \<Rightarrow> go_error option) \<Rightarrow> Part \<Rightarrow>
   (Part \<times> go_error option) \<times> event list" where
  "tryDownloadPart downloadPart ctx_Err part =
     tryDownloadPart_loop downloadPart ctx_Err part 0 zero_Part None 0"

text \<open>
  Modelled from the spec: the response envelope \<open>conf.PcsResponseBase\<close> embedded in
  \<open>SuperFile2UploadResponse\<close> is declared outside the sources at hand. The code reads its
  fields \<open>ErrorCode\<close>, \<open>ErrorMsg\<close> and \<open>RequestID\<close>, which the interface description names
  \<open>errno\<close> (0 means success), \<open>errmsg\<close> and \<open>request_id\<close>. The other fields are those of
  upload.go.
\<close>

record SuperFile2UploadResponse =
  resp_ErrorCode :: int
  resp_ErrorMsg :: string
  resp_RequestID :: nat
  resp_Md5 :: string
  resp_UploadID :: string
  resp_PartSeq :: string

definition zero_SuperFile2UploadResponse :: SuperFile2UploadResponse where
  "zero_SuperFile2UploadResponse =
     \<lparr>resp_ErrorCode = 0, resp_ErrorMsg = [], resp_RequestID = 0,
      resp_Md5 = [], resp_UploadID = [], resp_PartSeq = []\<rparr>"

text \<open>
  One call of \<open>SuperFile2Upload\<close>, seen from \<open>TrySuperFile2Upload\<close>: the sizes reported
  while the request body was read, the response and the error.
\<close>

record upload_attempt =
  ua_reports :: "int64 list"
  ua_resp :: SuperFile2UploadResponse
  ua_err :: "go_error option"

text \<open>\<open>TrySuperFile2Upload\<close> (upload.go lines 449-472), modelled like \<open>tryDownloadPart\<close>.\<close>

function TrySuperFile2Upload_loop ::
  "(nat \<Rightarrow> upload_attempt) \<Rightarrow> (nat \<Rightarrow> go_error option) \<Rightarrow>
   nat \<Rightarrow> SuperFile2UploadResponse \<Rightarrow> go_error option \<Rightarrow> int64 \<Rightarrow>
   (SuperFile2UploadResponse \<times> go_error option) \<times> event list" where
  "TrySuperFile2Upload_loop SuperFile2Upload ctx_Err i resp err partDoneSize =
     (if i < 10 then
        let sleep = (if i > 0 then [Sleep 6] else []);
            a = SuperFile2Upload i;
            partDoneSize' = foldl (+) partDoneSize (ua_reports a);
            resp' = ua_resp a;
            err' = ua_err a;
            run = sleep @ [Attempt i] @ map Progress (ua_reports a)
        in if err' = None then ((resp', err'), run)
           else
             let undo = [Progress (- partDoneSize')]
             in if ctx_Err i \<noteq> None then ((resp', err'), run @ undo)
                else (case TrySuperFile2Upload_loop SuperFile2Upload ctx_Err (Suc i) resp' err' 0 of
                        (res, evs) \<Rightarrow> (res, run @ undo @ evs))
      else ((resp, err), []))"
  by pat_completeness auto
termination
  by (relation "measure (\<lambda>(up, c, i, r, e, d). 10 - i)") auto

declare TrySuperFile2Upload_loop.simps [simp del]

definition TrySuperFile2Upload ::
  "(nat \<Rightarrow> upload_attempt) \<Rightarrow> (nat \<Rightarrow> go_error option) \<Rightarrow>
   (SuperFile2UploadResponse \<times> go_error option) \<times> event list" where
  "TrySuperFile2Upload SuperFile2Upload ctx_Err =
     TrySuperFile2Upload_loop SuperFile2Upload ctx_Err 0 zero_SuperFile2UploadResponse None 0"

text \<open>The attempts started, and the sum of the deltas passed to the progress handler.\<close>

fun attempts_of :: "event list \<Rightarrow> nat list" where
  "attempts_of [] = []"
| "attempts_of (Attempt i # evs) = i # attempts_of evs"
| "attempts_of (e # evs) = attempts_of evs"

fun progress_sum :: "event list \<Rightarrow> int64" where
  "progress_sum [] = 0"
| "progress_sum (Progress d # evs) = d + progress_sum evs"
| "progress_sum (e # evs) = progress_sum evs"

text \<open>
  The progress handler that \<open>Download\<close> and \<open>ResumeDownload\<close> pass to \<open>tryDownloadPart\<close>
  (download.go lines 156-166, 262-272) adds every delta to its running \<open>doneSize\<close>; when
  it forwards the value to the caller depends on the clock and is not modelled.
\<close>

fun Download_doneSize :: "int64 \<Rightarrow> event list \<Rightarrow> int64" where
  "Download_doneSize doneSize [] = doneSize"
| "Download_doneSize doneSize (Progress d # evs) = Download_doneSize (doneSize + d) evs"
| "Download_doneSize doneSize (e # evs) = Download_doneSize doneSize evs"

text \<open>
  The progress handler that \<open>Upload\<close> and \<open>ResumeUpload\<close> pass to \<open>TrySuperFile2Upload\<close>
  (upload.go lines 142-148, 256-262) adds every delta to its running \<open>doneSize\<close> and then,
  if \<open>doneSize > fileSize\<close>, sets \<open>doneSize = fileSize\<close> (\<open>retSnapshot.TotalSize\<close> in
  \<open>ResumeUpload\<close>). \<open>Upload_doneSize fileSize doneSize evs\<close> is the value of \<open>doneSize\<close> after the
  deltas of \<open>evs\<close>; \<open>Upload_clamped fileSize doneSize evs\<close> tells whether the handler took the
  branch \<open>doneSize = fileSize\<close> at one of them.
\<close>

fun Upload_doneSize :: "int64 \<Rightarrow> int64 \<Rightarrow> event list \<Rightarrow> int64" where
  "Upload_doneSize fileSize doneSize [] = doneSize"
| "Upload_doneSize fileSize doneSize (Progress d # evs) =
     Upload_doneSize fileSize (if fileSize <s doneSize + d then fileSize else doneSize + d) evs"
| "Upload_doneSize fileSize doneSize (e # evs) = Upload_doneSize fileSize doneSize evs"

fun Upload_clamped :: "int64 \<Rightarrow> int64 \<Rightarrow> event list \<Rightarrow> bool" where
  "Upload_clamped fileSize doneSize [] = False"
| "Upload_clamped fileSize doneSize (Progress d # evs) =
     (fileSize <s doneSize + d \<or>
      Upload_clamped fileSize (if fileSize <s doneSize + d then fileSize else doneSize + d) evs)"
| "Upload_clamped fileSize doneSize (e # evs) = Upload_clamped fileSize doneSize evs"

text \<open>
  The events of attempt \<open>i\<close>, as the specification of the retry driver describes them: a
  failed attempt is followed by the removal of its temp file, if it created one, and by
  one negative delta that equals the sum of the sizes it reported.
\<close>

definition download_attempt_events :: "Part \<Rightarrow> (nat \<Rightarrow> download_attempt) \<Rightarrow> nat \<Rightarrow> event list" where
  "download_attempt_events part downloadPart i =
     (if i > 0 then [Sleep 6] else []) @ [Attempt i] @ map Progress (da_reports (downloadPart i)) @
     (if da_err (downloadPart i) = None then []
      else (if FilePath (downloadPart_retPart part (downloadPart i)) \<noteq> []
            then [Remove (FilePath (downloadPart_retPart part (downloadPart i)))] else [])
           @ [Progress (- sum_list (da_reports (downloadPart i)))])"

definition upload_attempt_events :: "(nat \<Rightarrow> upload_attempt) \<Rightarrow> nat \<Rightarrow> event list" where
  "upload_attempt_events SuperFile2Upload i =
     (if i > 0 then [Sleep 6] else []) @ [Attempt i] @ map Progress (ua_reports (SuperFile2Upload i)) @
     (if ua_err (SuperFile2Upload i) = None then []
      else [Progress (- sum_list (ua_reports (SuperFile2Upload i)))])"

text \<open>
  Concrete runs, for evaluating the loops. In the first, a part of 10 bytes
  (\<open>From = 0\<close>, \<open>To = 9\<close>) is fetched: attempt 0 streams 3 + 4 bytes into a temp file, the
  body ends there and the attempt fails at the length check (download.go lines 490-493);
  attempt 1 streams the 10 bytes of the part and succeeds. For the upload, a slice of 4
  bytes is sent in a multipart body of 194 bytes: attempt 0 sends the whole body and is
  answered with status 500, attempt 1 sends it again and succeeds. In the second run,
  every attempt fails with a server error before any byte is reported. The context is
  live at every check (\<open>live_ctx\<close>), cancelled at every check (\<open>cancelled_ctx\<close>), or
  cancelled from the second check on (\<open>cancelled_after_second\<close>).
\<close>

definition ten_byte_Part :: Part where
  "ten_byte_Part = \<lparr>Index = 0, From = 0, To = 9, FilePath = []\<rparr>"

definition live_ctx :: "nat \<Rightarrow> go_error option" where
  "live_ctx i = None"

definition cancelled_ctx :: "nat \<Rightarrow> go_error option" where
  "cancelled_ctx i = Some ContextCanceled"

definition second_try_downloadPart :: "nat \<Rightarrow> download_attempt" where
  "second_try_downloadPart i =
     (if i = 0
      then \<lparr>da_reports = [3, 4], da_created = Some ''tmp_0'', da_err = Some (OtherError ''doneSize:7 expectedDoneSize:10'')\<rparr>
      else \<lparr>da_reports = [5, 5], da_created = Some ''tmp_1'', da_err = None\<rparr>)"

definition second_try_SuperFile2Upload :: "nat \<Rightarrow> upload_attempt" where
  "second_try_SuperFile2Upload i =
     (if i = 0
      then \<lparr>ua_reports = [194], ua_resp = zero_SuperFile2UploadResponse,
            ua_err = Some (OtherError ''http error status: 500'')\<rparr>
      else \<lparr>ua_reports = [194],
            ua_resp = zero_SuperFile2UploadResponse\<lparr>resp_Md5 := ''md5'', resp_PartSeq := ''0''\<rparr>,
            ua_err = None\<rparr>)"

definition status_500_downloadPart :: "nat \<Rightarrow> download_attempt" where
  "status_500_downloadPart i =
     \<lparr>da_reports = [], da_created = None, da_err = Some (OtherError ''status 500'')\<rparr>"

definition status_500_SuperFile2Upload :: "nat \<Rightarrow> upload_attempt" where
  "status_500_SuperFile2Upload i =
     \<lparr>ua_reports = [], ua_resp = zero_SuperFile2UploadResponse,
      ua_err = Some (OtherError ''http error status: 500'')\<rparr>"

definition cancelled_after_second :: "nat \<Rightarrow> go_error option" where
  "cancelled_after_second i = (if i < 1 then None else Some ContextCanceled)"

section \<open>file/upload.go: the upload pipeline\<close>

type_synonym byte = "8 word"

text \<open>
  Modelled from the spec: the response envelope \<open>conf.CloudDiskResponseBase\<close> embedded in
  \<open>UploadResponse\<close> and \<open>PreCreateResponse\<close> is declared outside the sources at hand. The
  code reads its fields \<open>ErrorCode\<close>, \<open>ErrorMsg\<close> and \<open>RequestID\<close> (\<open>errno\<close>, \<open>errmsg\<close> and
  \<open>request_id\<close> on the wire). The other fields are those of upload.go.
\<close>

record UploadResponse =
  ur_ErrorCode :: int
  ur_ErrorMsg :: string
  ur_RequestID :: nat
  ur_Path :: string
  ur_Name :: string
  ur_Size :: int64
  ur_Md5 :: string
  ur_FsID :: nat
  ur_IsDir :: int

record PreCreateResponse =
  pc_ErrorCode :: int
  pc_ErrorMsg :: string
  pc_RequestID :: nat
  pc_UploadID :: string
  pc_Path :: string
  pc_ReturnType :: int
  pc_BlockList :: "int list"
  pc_Info :: UploadResponse

record UploadPartResponse =
  upr_Response :: SuperFile2UploadResponse
  upr_Size :: int64
  upr_Error :: "go_error option"

text \<open>\<open>UploadSnapshot\<close> of utils/file/upload.go.\<close>

record UploadSnapshot =
  us_Path :: string
  us_LocalPath :: string
  us_UploadId :: string
  us_FileMd5 :: string
  us_FileModTime :: int64
  us_Recoverable :: bool
  us_DoneSize :: int64
  us_TotalSize :: int64
  us_SliceSize :: int64
  us_SliceNum :: int
  us_DoneSlices :: "string list"

definition zero_UploadResponse :: UploadResponse where
  "zero_UploadResponse =
     \<lparr>ur_ErrorCode = 0, ur_ErrorMsg = [], ur_RequestID = 0, ur_Path = [], ur_Name = [],
      ur_Size = 0, ur_Md5 = [], ur_FsID = 0, ur_IsDir = 0\<rparr>"

definition zero_PreCreateResponse :: PreCreateResponse where
  "zero_PreCreateResponse =
     \<lparr>pc_ErrorCode = 0, pc_ErrorMsg = [], pc_RequestID = 0, pc_UploadID = [], pc_Path = [],
      pc_ReturnType = 0, pc_BlockList = [], pc_Info = zero_UploadResponse\<rparr>"

definition zero_UploadSnapshot :: UploadSnapshot where
  "zero_UploadSnapshot =
     \<lparr>us_Path = [], us_LocalPath = [], us_UploadId = [], us_FileMd5 = [], us_FileModTime = 0,
      us_Recoverable = False, us_DoneSize = 0, us_TotalSize = 0, us_SliceSize = 0,
      us_SliceNum = 0, us_DoneSlices = []\<rparr>"

text \<open>
  The HTTP requests the uploader issues, with the parameters that identify them: the
  account lookup, \<open>precreate\<close> (path, size, block list, content-md5, slice-md5),
  \<open>superfile2\<close> (path, upload id, partseq, attempt number, the bytes of the slice) and
  \<open>create\<close> (path, upload id, block list, size).
\<close>

datatype request =
    UserInfoRequest string
  | PreCreateRequest string int64 "string list" string string
  | SuperFile2Request string string int nat "byte list"
  | CreateRequest string string "string list" int64

text \<open>
  Everything outside the uploader that decides a run: the local file (\<open>None\<close> when it
  cannot be opened; its content does not change during the run), the MD5 function, the
  answer of the account lookup (\<open>None\<close> when it fails, else the VIP type), the outcome of
  the \<open>precreate\<close> and \<open>create\<close> calls (\<open>Inl\<close>: transport or JSON error, \<open>Inr\<close>: the
  decoded response), the outcome of every slice upload attempt by partseq and attempt
  number, the value of \<open>ctx.Err()\<close> at each of the code's checks, the platform's
  result for an unrepresentable float-to-int conversion, and the scheduling of the
  goroutines of the slice phase (explained there). The HTTP client (package
  \<open>httpclient\<close>) is outside the sources at hand: what it returns is part of the world. A
  run is an outcome (a panic or the returned values) together with the requests issued,
  in order.
\<close>

record upload_world =
  local_file :: "byte list option"
  local_mtime :: int64
  md5_hex :: "byte list \<Rightarrow> string"
  UserInfo_VipType :: "int option"
  PreCreate_reply :: "go_error + PreCreateResponse"
  SuperFile2Upload_try :: "int \<Rightarrow> nat \<Rightarrow> upload_attempt"
  Create_reply :: "go_error + UploadResponse"
  hash_ctx_Err :: "nat \<Rightarrow> go_error option"
  admit_ctx_Err :: "nat \<Rightarrow> go_error option"
  retry_ctx_Err :: "int \<Rightarrow> nat \<Rightarrow> go_error option"
  float_oor :: "float64 \<Rightarrow> int"
  sched_run :: "nat \<Rightarrow> nat"
  sched_pick :: "nat \<Rightarrow> nat"

datatype 'a outcome = Panic go_panic | Return 'a

text \<open>
  \<open>GetFileInfo(false)\<close>: the cached info if its MD5 is set, else size, modification time
  and MD5 of the file, which are then cached in the uploader.
\<close>

definition GetFileInfo :: "upload_world \<Rightarrow> Uploader \<Rightarrow> (go_error + LocalFileInfo) \<times> Uploader" where
  "GetFileInfo w u =
     (if Md5 (FileInfo u) \<noteq> [] then (Inr (FileInfo u), u)
      else (case local_file w of
              None \<Rightarrow> (Inl (OtherError ''open''), u)
            | Some content \<Rightarrow>
                (let info = \<lparr>Md5 = md5_hex w content, Size = of_nat (length content),
                             ModTime = local_mtime w\<rparr>
                 in (Inr info, u\<lparr>FileInfo := info\<rparr>))))"

text \<open>
  \<open>GetSliceSize\<close> (lines 559-592): a preset positive slice size wins. Otherwise the
  account is looked up; if that fails the result is 4 MiB, not clamped and not stored;
  else the tier's size, clamped to the file size, is stored in the uploader.
\<close>

definition GetSliceSize :: "upload_world \<Rightarrow> Uploader \<Rightarrow> int64 \<Rightarrow> int64 \<times> Uploader \<times> request list" where
  "GetSliceSize w u fileSize =
     (if 0 <s SliceSize u then (SliceSize u, u, [])
      else (case UserInfo_VipType w of
              None \<Rightarrow> (4194304, u, [UserInfoRequest (AccessToken u)])
            | Some vipType \<Rightarrow>
                (let sliceSize = (if vipType = 1 then 16777216
                                  else if vipType = 2 then 33554432 else 4194304);
                     sliceSize' = (if fileSize \<le>s sliceSize then fileSize else sliceSize)
                 in (sliceSize', u\<lparr>SliceSize := sliceSize'\<rparr>, [UserInfoRequest (AccessToken u)]))))"

text \<open>\<open>getSliceMd5\<close>: the MD5 of the first 256 KiB, or of the whole file if it is no longer.\<close>

definition getSliceMd5 :: "upload_world \<Rightarrow> Uploader \<Rightarrow> (go_error + string) \<times> Uploader" where
  "getSliceMd5 w u =
     (case GetFileInfo w u of
        (Inl e, u') \<Rightarrow> (Inl e, u')
      | (Inr fileInfo, u') \<Rightarrow>
          (if Size fileInfo \<le>s 262144 then (Inr (Md5 fileInfo), u')
           else (case local_file w of
                   None \<Rightarrow> (Inl (OtherError ''open''), u')
                 | Some content \<Rightarrow> (Inr (md5_hex w (take 262144 content)), u'))))"

text \<open>
  The loop of \<open>getBlockList\<close>: before each read the context is checked; a read of
  \<open>n = 0\<close> bytes ends the loop. \<open>rest\<close> is what is left of the file, \<open>k\<close> counts the reads.
\<close>

function block_loop :: "upload_world \<Rightarrow> nat \<Rightarrow> byte list \<Rightarrow> nat \<Rightarrow> go_error + string list" where
  "block_loop w sliceSize rest k =
     (case hash_ctx_Err w k of
        Some e \<Rightarrow> Inl e
      | None \<Rightarrow>
          (if take sliceSize rest = [] then Inr []
           else (case block_loop w sliceSize (drop sliceSize rest) (Suc k) of
                   Inl e \<Rightarrow> Inl e
                 | Inr blockList \<Rightarrow> Inr (md5_hex w (take sliceSize rest) # blockList))))"
  by pat_completeness auto
termination
  by (relation "measure (\<lambda>(w, sliceSize, rest, k). length rest)") auto

declare block_loop.simps [simp del]

definition getBlockList ::
  "upload_world \<Rightarrow> Uploader \<Rightarrow> request list \<times> ((go_error + string list) \<times> Uploader) outcome" where
  "getBlockList w u =
     (case GetFileInfo w u of
        (Inl e, u1) \<Rightarrow> ([], Return (Inl e, u1))
      | (Inr fileInfo, u1) \<Rightarrow>
          (case GetSliceSize w u1 (Size fileInfo) of
             (sliceSize, u2, reqs) \<Rightarrow>
               (if sliceSize = Size fileInfo then (reqs, Return (Inr [Md5 fileInfo], u2))
                else if sliceSize <s 0 then (reqs, Panic MakeLenOutOfRange)
                else (case local_file w of
                        None \<Rightarrow> (reqs, Return (Inl (OtherError ''open''), u2))
                      | Some content \<Rightarrow>
                          (reqs, Return (block_loop w (unat sliceSize) content 0, u2))))))"

text \<open>
  \<open>PreCreate\<close> (lines 364-446): file info, prefix MD5 and block list, then the POST. A
  response with a non-zero \<open>errno\<close> is returned together with an error.
\<close>

definition PreCreate ::
  "upload_world \<Rightarrow> Uploader \<Rightarrow>
   request list \<times> ((PreCreateResponse \<times> go_error option) \<times> Uploader) outcome" where
  "PreCreate w u =
     (case GetFileInfo w u of
        (Inl e, u1) \<Rightarrow> ([], Return ((zero_PreCreateResponse, Some e), u1))
      | (Inr fileInfo, u1) \<Rightarrow>
          (case getSliceMd5 w u1 of
             (Inl e, u2) \<Rightarrow> ([], Return ((zero_PreCreateResponse, Some e), u2))
           | (Inr sliceMd5, u2) \<Rightarrow>
               (case getBlockList w u2 of
                  (reqs, Panic p) \<Rightarrow> (reqs, Panic p)
                | (reqs, Return (Inl e, u3)) \<Rightarrow> (reqs, Return ((zero_PreCreateResponse, Some e), u3))
                | (reqs, Return (Inr blockList, u3)) \<Rightarrow>
                    (let reqs' = reqs @ [PreCreateRequest (Path u3) (Size fileInfo) blockList
                                           (Md5 fileInfo) sliceMd5]
                     in (case PreCreate_reply w of
                           Inl e \<Rightarrow> (reqs', Return ((zero_PreCreateResponse, Some e), u3))
                         | Inr ret \<Rightarrow>
                             (if pc_ErrorCode ret \<noteq> 0
                              then (reqs', Return ((ret, Some (OtherError ''error_code'')), u3))
                              else (reqs', Return ((ret, None), u3))))))))"

text \<open>\<open>Create\<close> (lines 511-556): the commit request.\<close>

definition Create ::
  "upload_world \<Rightarrow> Uploader \<Rightarrow> string \<Rightarrow> string list \<Rightarrow> (UploadResponse \<times> go_error option) \<times> request list" where
  "Create w u uploadID blockList =
     (case GetFileInfo w u of
        (Inl e, u1) \<Rightarrow> ((zero_UploadResponse, Some e), [])
      | (Inr fileInfo, u1) \<Rightarrow>
          (let reqs = [CreateRequest (Path u1) uploadID blockList (Size fileInfo)]
           in (case Create_reply w of
                 Inl e \<Rightarrow> ((zero_UploadResponse, Some e), reqs)
               | Inr ret \<Rightarrow>
                   (if ur_ErrorCode ret \<noteq> 0
                    then ((ret, Some (OtherError ''error_code'')), reqs)
                    else ((ret, None), reqs)))))"

text \<open>\<open>strconv.Atoi\<close>: an optional sign and decimal digits, within the range of \<open>int\<close>.\<close>

definition digit_of :: "char \<Rightarrow> nat option" where
  "digit_of c =
     (let n = (of_char c :: nat) in if 48 \<le> n \<and> n \<le> 57 then Some (n - 48) else None)"

fun digits_value :: "nat \<Rightarrow> string \<Rightarrow> nat option" where
  "digits_value acc [] = Some acc"
| "digits_value acc (c # cs) =
     (case digit_of c of None \<Rightarrow> None | Some d \<Rightarrow> digits_value (10 * acc + d) cs)"

definition Atoi :: "string \<Rightarrow> int option" where
  "Atoi s =
     (let (neg, ds) = (case s of
                         [] \<Rightarrow> (False, [])
                       | c # cs \<Rightarrow> if c = CHR ''-'' then (True, cs)
                                  else if c = CHR ''+'' then (False, cs) else (False, s))
      in if ds = [] then None
         else (case digits_value 0 ds of
                 None \<Rightarrow> None
               | Some n \<Rightarrow>
                   (let v = (if neg then - int n else int n)
                    in if - (2 ^ 63) \<le> v \<and> v < 2 ^ 63 then Some v else None)))"

text \<open>
  The slice phase. The producer loop starts one goroutine per admitted slice, bounded by
  the channel \<open>sem\<close> of capacity 2, and the responses are collected from a channel
  afterwards. The goroutines run concurrently with the producer, so a run also depends on
  the scheduler: \<open>sched_run w i\<close> is the number of steps the running goroutines take
  before the producer's iteration \<open>i\<close> reads \<open>hasFailed\<close>, and \<open>sched_pick w k\<close> chooses the
  goroutine that takes the \<open>k\<close>-th step (the older or the newer of the at most two that
  run). What a goroutine does is fixed by the world: its retry loop issues the requests of
  its attempts one after the other and then ends. One step of a goroutine is either its
  next request, or, when none is left, its end: it sets \<open>hasFailed\<close> on an error, sends
  its response and gives its permit back. The state of the producer loop: the read
  position in the local file, \<open>offset\<close> (\<open>ResumeUpload\<close> only), \<open>hasFailed\<close>, \<open>uploadErr\<close>,
  the channel, the requests issued so far, a panic if one occurred, the goroutines that
  have started and not ended, and the number of goroutine steps taken.
\<close>

record task =
  tk_partSeq :: nat
  tk_partByte :: "byte list"
  tk_attempts :: "nat list"
  tk_resp :: SuperFile2UploadResponse
  tk_err :: "go_error option"

record producer =
  pr_pos :: nat
  pr_offset :: int64
  pr_hasFailed :: bool
  pr_uploadErr :: "go_error option"
  pr_chan :: "UploadPartResponse list"
  pr_requests :: "request list"
  pr_panic :: "go_panic option"
  pr_running :: "task list"
  pr_steps :: nat

definition producer_start :: "request list \<Rightarrow> producer" where
  "producer_start reqs =
     \<lparr>pr_pos = 0, pr_offset = 0, pr_hasFailed = False, pr_uploadErr = None, pr_chan = [],
      pr_requests = reqs, pr_panic = None, pr_running = [], pr_steps = 0\<rparr>"

text \<open>
  \<open>go func(partSeq int, partByte []byte)\<close>: the new goroutine will make the attempts of
  \<open>TrySuperFile2Upload\<close> for its slice and end with that call's response and error.
\<close>

definition spawn_slice :: "upload_world \<Rightarrow> nat \<Rightarrow> byte list \<Rightarrow> producer \<Rightarrow> producer" where
  "spawn_slice w partSeq partByte st =
     (case TrySuperFile2Upload (SuperFile2Upload_try w (int partSeq)) (retry_ctx_Err w (int partSeq)) of
        ((uploadResp, err), evs) \<Rightarrow>
          st\<lparr>pr_running := pr_running st @
               [\<lparr>tk_partSeq = partSeq, tk_partByte = partByte, tk_attempts = attempts_of evs,
                 tk_resp = uploadResp, tk_err = err\<rparr>]\<rparr>)"

text \<open>One step of the goroutine \<open>t\<close>: what it leaves running, and what it changes.\<close>

definition task_step :: "Uploader \<Rightarrow> string \<Rightarrow> task \<Rightarrow> producer \<Rightarrow> task list \<times> producer" where
  "task_step u uploadID t st =
     (case tk_attempts t of
        tryIter # rest \<Rightarrow>
          ([t\<lparr>tk_attempts := rest\<rparr>],
           st\<lparr>pr_requests := pr_requests st @
                [SuperFile2Request (Path u) uploadID (int (tk_partSeq t)) tryIter (tk_partByte t)]\<rparr>)
      | [] \<Rightarrow>
          ([],
           st\<lparr>pr_hasFailed := (tk_err t \<noteq> None \<or> pr_hasFailed st),
              pr_chan := pr_chan st @
                [\<lparr>upr_Response = tk_resp t, upr_Size = of_nat (length (tk_partByte t)),
                  upr_Error = tk_err t\<rparr>]\<rparr>))"

definition goroutine_step :: "upload_world \<Rightarrow> Uploader \<Rightarrow> string \<Rightarrow> producer \<Rightarrow> producer" where
  "goroutine_step w u uploadID st =
     (if pr_running st = [] then st
      else
        (let p = sched_pick w (pr_steps st) mod length (pr_running st)
         in case task_step u uploadID (pr_running st ! p) st of
              (ts, st') \<Rightarrow>
                st'\<lparr>pr_running := take p (pr_running st) @ ts @ drop (Suc p) (pr_running st),
                    pr_steps := pr_steps st + 1\<rparr>))"

text \<open>What the running goroutines still have to do: their requests and their ends.\<close>

definition work :: "producer \<Rightarrow> nat" where
  "work st = sum_list (map (\<lambda>t. Suc (length (tk_attempts t))) (pr_running st))"

text \<open>
  \<open>sem <- 1\<close>: with two goroutines running the producer waits, and they go on, until one
  of them has ended. After the loop the collector receives one response per admitted
  slice: the goroutines go on until all have ended.
\<close>

function wait_for_permit :: "upload_world \<Rightarrow> Uploader \<Rightarrow> string \<Rightarrow> producer \<Rightarrow> producer" where
  "wait_for_permit w u uploadID st =
     (if length (pr_running st) < 2 then st
      else wait_for_permit w u uploadID (goroutine_step w u uploadID st))"
  by pat_completeness auto
termination
proof (relation "measure (\<lambda>(w, u, uploadID, st). work st)")
  show "wf (measure (\<lambda>(w, u, uploadID, st). work st))" by simp
next
  fix w :: upload_world and u :: Uploader and uploadID :: string and st :: producer
  assume "\<not> length (pr_running st) < 2"
  then have ne: "pr_running st \<noteq> []" by auto
  define p where "p = sched_pick w (pr_steps st) mod length (pr_running st)"
  have p: "p < length (pr_running st)" using ne by (simp add: p_def)
  have split: "pr_running st = take p (pr_running st) @ (pr_running st ! p) # drop (Suc p) (pr_running st)"
    using p by (rule id_take_nth_drop)
  have "work st = sum_list (map (\<lambda>t. Suc (length (tk_attempts t)))
                     (take p (pr_running st) @ (pr_running st ! p) # drop (Suc p) (pr_running st)))"
    unfolding work_def using split by simp
  then have "work (goroutine_step w u uploadID st) < work st"
    using ne
    by (simp add: goroutine_step_def task_step_def work_def Let_def p_def [symmetric]
          split: list.splits)
  then show "((w, u, uploadID, goroutine_step w u uploadID st), (w, u, uploadID, st))
               \<in> measure (\<lambda>(w, u, uploadID, st). work st)"
    by simp
qed

function drain :: "upload_world \<Rightarrow> Uploader \<Rightarrow> string \<Rightarrow> producer \<Rightarrow> producer" where
  "drain w u uploadID st =
     (if pr_running st = [] then st
      else drain w u uploadID (goroutine_step w u uploadID st))"
  by pat_completeness auto
termination
proof (relation "measure (\<lambda>(w, u, uploadID, st). work st)")
  show "wf (measure (\<lambda>(w, u, uploadID, st). work st))" by simp
next
  fix w :: upload_world and u :: Uploader and uploadID :: string and st :: producer
  assume ne: "pr_running st \<noteq> []"
  define p where "p = sched_pick w (pr_steps st) mod length (pr_running st)"
  have p: "p < length (pr_running st)" using ne by (simp add: p_def)
  have split: "pr_running st = take p (pr_running st) @ (pr_running st ! p) # drop (Suc p) (pr_running st)"
    using p by (rule id_take_nth_drop)
  have "work st = sum_list (map (\<lambda>t. Suc (length (tk_attempts t)))
                     (take p (pr_running st) @ (pr_running st ! p) # drop (Suc p) (pr_running st)))"
    unfolding work_def using split by simp
  then have "work (goroutine_step w u uploadID st) < work st"
    using ne
    by (simp add: goroutine_step_def task_step_def work_def Let_def p_def [symmetric]
          split: list.splits)
  then show "((w, u, uploadID, goroutine_step w u uploadID st), (w, u, uploadID, st))
               \<in> measure (\<lambda>(w, u, uploadID, st). work st)"
    by simp
qed

declare wait_for_permit.simps [simp del]
declare drain.simps [simp del]

text \<open>
  The producer loop of \<open>Upload\<close> (lines 167-201). Each iteration sees \<open>hasFailed\<close> as the
  goroutines have left it so far, reads the next slice, waits for a permit and starts the
  goroutine of the slice.
\<close>

function Upload_produce ::
  "upload_world \<Rightarrow> Uploader \<Rightarrow> string \<Rightarrow> byte list \<Rightarrow> int64 \<Rightarrow> int \<Rightarrow> nat \<Rightarrow> producer \<Rightarrow> producer" where
  "Upload_produce w u uploadID content sliceSize sliceNum i st0 =
     (if int i < sliceNum then
        (let st = (goroutine_step w u uploadID ^^ sched_run w i) st0
         in if pr_hasFailed st then st
            else (case admit_ctx_Err w i of
                    Some e \<Rightarrow> st\<lparr>pr_uploadErr := Some e\<rparr>
                  | None \<Rightarrow>
                      (if sliceSize <s 0 then st\<lparr>pr_panic := Some MakeLenOutOfRange\<rparr>
                       else
                         (let partByte = take (unat sliceSize) (drop (pr_pos st) content)
                          in if partByte = [] then st
                             else Upload_produce w u uploadID content sliceSize sliceNum (Suc i)
                                    (spawn_slice w i partByte
                                       (wait_for_permit w u uploadID
                                          (st\<lparr>pr_pos := pr_pos st + length partByte\<rparr>)))))))
      else st0)"
  by pat_completeness auto
termination
  by (relation "measure (\<lambda>(w, u, uploadID, content, sliceSize, sliceNum, i, st). nat (sliceNum - int i))") auto

declare Upload_produce.simps [simp del]

text \<open>
  The producer loop of \<open>ResumeUpload\<close> (lines 283-323): a slice with a recorded MD5 only
  advances \<open>offset\<close>; a missing slice is read at \<open>offset\<close>. \<open>Seek\<close> fails on a negative
  offset, which the code ignores: the position then stays where it was.
\<close>

function ResumeUpload_produce ::
  "upload_world \<Rightarrow> Uploader \<Rightarrow> UploadSnapshot \<Rightarrow> byte list \<Rightarrow> nat \<Rightarrow> producer \<Rightarrow> producer" where
  "ResumeUpload_produce w u retSnapshot content i st0 =
     (if int i < us_SliceNum retSnapshot then
        (let st = (goroutine_step w u (us_UploadId retSnapshot) ^^ sched_run w i) st0
         in if pr_hasFailed st then st
            else (case admit_ctx_Err w i of
                    Some e \<Rightarrow> st\<lparr>pr_uploadErr := Some e\<rparr>
                  | None \<Rightarrow>
                      (if us_DoneSlices retSnapshot ! i \<noteq> [] then
                         ResumeUpload_produce w u retSnapshot content (Suc i)
                           (st\<lparr>pr_offset := pr_offset st + us_SliceSize retSnapshot\<rparr>)
                       else if us_SliceSize retSnapshot <s 0 then st\<lparr>pr_panic := Some MakeLenOutOfRange\<rparr>
                       else
                         (let pos = (if 0 \<le>s pr_offset st then unat (pr_offset st) else pr_pos st);
                              partByte = take (unat (us_SliceSize retSnapshot)) (drop pos content);
                              st' = st\<lparr>pr_pos := pos + length partByte,
                                       pr_offset := pr_offset st + of_nat (length partByte)\<rparr>
                          in if partByte = [] then st'
                             else ResumeUpload_produce w u retSnapshot content (Suc i)
                                    (spawn_slice w i partByte
                                       (wait_for_permit w u (us_UploadId retSnapshot) st'))))))
      else st0)"
  by pat_completeness auto
termination
  by (relation "measure (\<lambda>(w, u, retSnapshot, content, i, st). nat (us_SliceNum retSnapshot - int i))") auto

declare ResumeUpload_produce.simps [simp del]

text \<open>
  Collecting the responses. \<open>Upload\<close> (lines 206-228) stores the returned MD5 at the
  index the server named, in \<open>blockList\<close> and in the snapshot; \<open>ResumeUpload\<close> (lines
  325-346) in the snapshot only. An index outside the slice panics.
\<close>

record collector =
  co_ret :: UploadResponse
  co_uploadErr :: "go_error option"
  co_blockList :: "string list"
  co_snapshot :: UploadSnapshot

definition collect_failure :: "UploadPartResponse \<Rightarrow> collector \<Rightarrow> collector" where
  "collect_failure partResp c =
     c\<lparr>co_ret := (co_ret c)\<lparr>ur_ErrorCode := resp_ErrorCode (upr_Response partResp),
                              ur_ErrorMsg := resp_ErrorMsg (upr_Response partResp),
                              ur_RequestID := resp_RequestID (upr_Response partResp)\<rparr>,
       co_uploadErr := (if co_uploadErr c = None then upr_Error partResp else co_uploadErr c)\<rparr>"

fun Upload_collect :: "UploadPartResponse list \<Rightarrow> collector \<Rightarrow> collector outcome" where
  "Upload_collect [] c = Return c"
| "Upload_collect (partResp # rest) c =
     (if upr_Error partResp \<noteq> None then Upload_collect rest (collect_failure partResp c)
      else (case Atoi (resp_PartSeq (upr_Response partResp)) of
              None \<Rightarrow>
                Upload_collect rest
                  (c\<lparr>co_uploadErr := (if co_uploadErr c = None then Some (OtherError ''Atoi'')
                                        else co_uploadErr c)\<rparr>)
            | Some partSeq \<Rightarrow>
                (if partSeq < 0 \<or> int (length (co_blockList c)) \<le> partSeq then Panic IndexOutOfRange
                 else Upload_collect rest
                        (c\<lparr>co_blockList := (co_blockList c)[nat partSeq := resp_Md5 (upr_Response partResp)],
                           co_snapshot := (co_snapshot c)
                             \<lparr>us_DoneSlices := (us_DoneSlices (co_snapshot c))
                                                  [nat partSeq := resp_Md5 (upr_Response partResp)],
                              us_DoneSize := us_DoneSize (co_snapshot c) + upr_Size partResp\<rparr>\<rparr>))))"

fun ResumeUpload_collect :: "UploadPartResponse list \<Rightarrow> collector \<Rightarrow> collector outcome" where
  "ResumeUpload_collect [] c = Return c"
| "ResumeUpload_collect (partResp # rest) c =
     (if upr_Error partResp \<noteq> None then ResumeUpload_collect rest (collect_failure partResp c)
      else (case Atoi (resp_PartSeq (upr_Response partResp)) of
              None \<Rightarrow>
                ResumeUpload_collect rest
                  (c\<lparr>co_uploadErr := (if co_uploadErr c = None then Some (OtherError ''Atoi'')
                                        else co_uploadErr c)\<rparr>)
            | Some partSeq \<Rightarrow>
                (if partSeq < 0 \<or> int (length (us_DoneSlices (co_snapshot c))) \<le> partSeq
                 then Panic IndexOutOfRange
                 else ResumeUpload_collect rest
                        (c\<lparr>co_snapshot := (co_snapshot c)
                             \<lparr>us_DoneSlices := (us_DoneSlices (co_snapshot c))
                                                  [nat partSeq := resp_Md5 (upr_Response partResp)],
                              us_DoneSize := us_DoneSize (co_snapshot c) + upr_Size partResp\<rparr>\<rparr>))))"

text \<open>
  \<open>Upload\<close> (lines 93-242), in three definitions: the commit (phase 3, shared with
  \<open>ResumeUpload\<close>), the slice phase, and the precreate phase that starts them. The result
  is the list of requests issued and either a panic or the three returned values.
  Allocation limits are not modelled: \<open>make\<close> fails only on a negative size.
\<close>

definition Upload_commit ::
  "upload_world \<Rightarrow> Uploader \<Rightarrow> string \<Rightarrow> string list \<Rightarrow> request list \<Rightarrow> collector \<Rightarrow>
   request list \<times> (UploadResponse \<times> UploadSnapshot \<times> go_error option) outcome" where
  "Upload_commit w u uploadID blockList reqs c =
     (case co_uploadErr c of
        Some e \<Rightarrow> (reqs, Return (co_ret c, co_snapshot c, Some e))
      | None \<Rightarrow>
          (case Create w u uploadID blockList of
             ((res, Some e), reqs3) \<Rightarrow> (reqs @ reqs3, Return (res, co_snapshot c, Some e))
           | ((res, None), reqs3) \<Rightarrow>
               (reqs @ reqs3, Return (res, (co_snapshot c)\<lparr>us_Recoverable := False\<rparr>, None))))"

definition Upload_slices ::
  "upload_world \<Rightarrow> Uploader \<Rightarrow> string \<Rightarrow> UploadSnapshot \<Rightarrow> request list \<Rightarrow>
   request list \<times> (UploadResponse \<times> UploadSnapshot \<times> go_error option) outcome" where
  "Upload_slices w u uploadID retSnapshot reqs =
     (case GetFileInfo w u of
        (r, u2) \<Rightarrow>
          (let fileInfo = (case r of Inl e \<Rightarrow> zero_LocalFileInfo | Inr info \<Rightarrow> info);
               fileSize = Size fileInfo
           in case GetSliceSize w u2 fileSize of
                (sliceSize, u3, reqs2) \<Rightarrow>
                  (let sliceNum = ceil_div_float64 (float_oor w) fileSize sliceSize;
                       retSnapshot2 = retSnapshot\<lparr>us_TotalSize := fileSize,
                                                    us_SliceSize := sliceSize,
                                                    us_SliceNum := sliceNum\<rparr>
                   in case local_file w of
                        None \<Rightarrow>
                          (reqs @ reqs2,
                           Return (zero_UploadResponse, retSnapshot2, Some (OtherError ''open'')))
                      | Some content \<Rightarrow>
                          (if sliceNum < 0 then (reqs @ reqs2, Panic MakechanSizeOutOfRange)
                           else
                             (let st1 = Upload_produce w u3 uploadID content sliceSize sliceNum 0
                                          (producer_start (reqs @ reqs2));
                                  st = drain w u3 uploadID st1
                              in case pr_panic st1 of
                                   Some p \<Rightarrow> (pr_requests st1, Panic p)
                                 | None \<Rightarrow>
                                     (case Upload_collect (pr_chan st)
                                             \<lparr>co_ret = zero_UploadResponse,
                                              co_uploadErr = pr_uploadErr st,
                                              co_blockList = replicate (nat sliceNum) [],
                                              co_snapshot = retSnapshot2
                                                \<lparr>us_Recoverable := True,
                                                 us_DoneSlices := replicate (nat sliceNum) []\<rparr>\<rparr> of
                                        Panic p \<Rightarrow> (pr_requests st, Panic p)
                                      | Return c \<Rightarrow>
                                          Upload_commit w u3 uploadID (co_blockList c)
                                            (pr_requests st) c))))))"

definition Upload ::
  "upload_world \<Rightarrow> Uploader \<Rightarrow>
   request list \<times> (UploadResponse \<times> UploadSnapshot \<times> go_error option) outcome" where
  "Upload w u =
     (let retSnapshot = zero_UploadSnapshot\<lparr>us_Path := Path u, us_LocalPath := LocalFilePath u\<rparr>
      in case PreCreate w u of
           (reqs, Panic p) \<Rightarrow> (reqs, Panic p)
         | (reqs, Return ((preCreateRes, Some e), u1)) \<Rightarrow>
             (reqs, Return (zero_UploadResponse\<lparr>ur_ErrorCode := pc_ErrorCode preCreateRes,
                                                 ur_ErrorMsg := pc_ErrorMsg preCreateRes,
                                                 ur_RequestID := pc_RequestID preCreateRes\<rparr>,
                            retSnapshot, Some e))
         | (reqs, Return ((preCreateRes, None), u1)) \<Rightarrow>
             (let retSnapshot1 = retSnapshot\<lparr>us_FileMd5 := Md5 (FileInfo u1),
                                               us_FileModTime := ModTime (FileInfo u1),
                                               us_UploadId := pc_UploadID preCreateRes\<rparr>
              in if pc_ReturnType preCreateRes = 2 then
                   (reqs, Return ((pc_Info preCreateRes)\<lparr>ur_ErrorCode := pc_ErrorCode preCreateRes,
                                                            ur_ErrorMsg := pc_ErrorMsg preCreateRes,
                                                            ur_RequestID := pc_RequestID preCreateRes\<rparr>,
                                  retSnapshot1\<lparr>us_DoneSize := ur_Size (pc_Info preCreateRes),
                                                us_TotalSize := ur_Size (pc_Info preCreateRes)\<rparr>,
                                  None))
                 else Upload_slices w u1 (pc_UploadID preCreateRes) retSnapshot1 reqs))"

text \<open>
  \<open>ResumeUpload\<close> (lines 245-361). \<open>make([]string, snapshot.SliceNum)\<close> followed by
  \<open>copy\<close> gives the first \<open>SliceNum\<close> recorded entries, padded with empty strings.
\<close>

definition ResumeUpload ::
  "upload_world \<Rightarrow> Uploader \<Rightarrow> UploadSnapshot \<Rightarrow>
   request list \<times> (UploadResponse \<times> UploadSnapshot \<times> go_error option) outcome" where
  "ResumeUpload w u snapshot =
     (if us_SliceNum snapshot < 0 then ([], Panic MakeLenOutOfRange)
      else
        (let sliceNum = us_SliceNum snapshot;
             retSnapshot = snapshot
               \<lparr>us_DoneSlices := take (nat sliceNum) (us_DoneSlices snapshot) @
                                  replicate (nat sliceNum - length (us_DoneSlices snapshot)) []\<rparr>
         in case local_file w of
              None \<Rightarrow> ([], Return (zero_UploadResponse, retSnapshot, Some (OtherError ''open'')))
            | Some content \<Rightarrow>
                (let st1 = ResumeUpload_produce w u retSnapshot content 0 (producer_start []);
                     st = drain w u (us_UploadId retSnapshot) st1
                 in case pr_panic st1 of
                      Some p \<Rightarrow> (pr_requests st1, Panic p)
                    | None \<Rightarrow>
                        (case ResumeUpload_collect (pr_chan st)
                                \<lparr>co_ret = zero_UploadResponse, co_uploadErr = pr_uploadErr st,
                                 co_blockList = [], co_snapshot = retSnapshot\<rparr> of
                           Panic p \<Rightarrow> (pr_requests st, Panic p)
                         | Return c \<Rightarrow>
                             Upload_commit w u (us_UploadId (co_snapshot c))
                               (us_DoneSlices (co_snapshot c)) (pr_requests st) c))))"

text \<open>The slice upload requests among the requests of a run.\<close>

fun is_SuperFile2Request :: "request \<Rightarrow> bool" where
  "is_SuperFile2Request (SuperFile2Request path uploadID partSeq tryIter partByte) = True"
| "is_SuperFile2Request r = False"

text \<open>
  A zero-byte local file on a machine where the account lookup answers with the free
  tier, the server accepts \<open>precreate\<close> and \<open>create\<close>, the context is never cancelled and
  the float conversion is that of amd64. The only input MD5 is ever taken of is the empty
  one, whose digest is the constant below.
\<close>

definition md5_of_empty :: "byte list \<Rightarrow> string" where
  "md5_of_empty bs = ''d41d8cd98f00b204e9800998ecf8427e''"

definition zero_byte_world :: upload_world where
  "zero_byte_world =
     \<lparr>local_file = Some [],
      local_mtime = 1700000000,
      md5_hex = md5_of_empty,
      UserInfo_VipType = Some 0,
      PreCreate_reply = Inr (zero_PreCreateResponse\<lparr>pc_UploadID := ''N1-upload'', pc_ReturnType := 1\<rparr>),
      SuperFile2Upload_try = (\<lambda>partSeq. second_try_SuperFile2Upload),
      Create_reply = Inr zero_UploadResponse,
      hash_ctx_Err = live_ctx,
      admit_ctx_Err = live_ctx,
      retry_ctx_Err = (\<lambda>partSeq. live_ctx),
      float_oor = oor_amd64,
      sched_run = (\<lambda>i. 0),
      sched_pick = (\<lambda>k. 0)\<rparr>"

text \<open>
  The arm64 implementation of the conversion saturates, and yields 0 for NaN.
\<close>

definition oor_arm64 :: "float64 \<Rightarrow> int" where
  "oor_arm64 f =
     (case f of
        Finite r \<Rightarrow> (if 0 \<le> r then 2 ^ 63 - 1 else - (2 ^ 63))
      | PosInf \<Rightarrow> 2 ^ 63 - 1
      | NegInf \<Rightarrow> - (2 ^ 63)
      | NaN \<Rightarrow> 0)"

text \<open>A snapshot of a three-slice upload with every slice acknowledged, and its file.\<close>

definition ten_byte_world :: upload_world where
  "ten_byte_world = zero_byte_world\<lparr>local_file := Some [1, 2, 3, 4, 5, 6, 7, 8, 9, 10]\<rparr>"

definition all_done_snapshot :: UploadSnapshot where
  "all_done_snapshot =
     zero_UploadSnapshot\<lparr>us_Path := ''/apps/x/ten.bin'', us_UploadId := ''N1-upload'',
       us_TotalSize := 10, us_DoneSize := 10, us_SliceSize := 4, us_SliceNum := 3,
       us_Recoverable := True, us_DoneSlices := [''md5-0'', ''md5-1'', ''md5-2'']\<rparr>"

text \<open>
  An upload of that file in slices of 4 bytes: the server answers the first attempt of
  every slice with status 500 and acknowledges the second with the slice's own sequence
  number and digest, and the scheduler takes the running goroutines in turn. The
  digests are stand-ins, one for each input MD5 is taken of in this run.
\<close>

definition ten_byte_md5 :: "byte list \<Rightarrow> string" where
  "ten_byte_md5 bs =
     (if bs = [1, 2, 3, 4] then ''md5-0''
      else if bs = [5, 6, 7, 8] then ''md5-1''
      else if bs = [9, 10] then ''md5-2''
      else ''md5-file'')"

definition echo_SuperFile2Upload :: "int \<Rightarrow> nat \<Rightarrow> upload_attempt" where
  "echo_SuperFile2Upload partSeq i =
     (if i = 0
      then \<lparr>ua_reports = [if partSeq = 2 then 192 else 194],
            ua_resp = zero_SuperFile2UploadResponse,
            ua_err = Some (OtherError ''http error status: 500'')\<rparr>
      else \<lparr>ua_reports = [if partSeq = 2 then 192 else 194],
            ua_resp = zero_SuperFile2UploadResponse
              \<lparr>resp_Md5 := (if partSeq = 0 then ''md5-0'' else if partSeq = 1 then ''md5-1'' else ''md5-2''),
               resp_PartSeq := (if partSeq = 0 then ''0'' else if partSeq = 1 then ''1'' else ''2'')\<rparr>,
            ua_err = None\<rparr>)"

definition three_slice_world :: upload_world where
  "three_slice_world =
     ten_byte_world\<lparr>md5_hex := ten_byte_md5, SuperFile2Upload_try := echo_SuperFile2Upload,
       sched_pick := (\<lambda>k. k)\<rparr>"

section \<open>The part scheduler of Download and ResumeDownload\<close>

text \<open>
  Lines 147-194 and 253-325 start one goroutine per admitted part and bound them with
  the buffered channel \<open>sem\<close>. The scheduler is modelled as a transition system over the
  interleavings of the atomic steps of the code:
  \<^item> \<open>acquire\<close>: the producer sends on \<open>sem\<close> (\<open>sem <- 1\<close>), possible only while the
    channel holds fewer values than its capacity;
  \<^item> \<open>spawn\<close>: the producer starts the goroutine for the job it acquired the permit for
    (\<open>go func(job Part)\<close>) and counts it (\<open>downloadPartNum++\<close>);
  \<^item> \<open>skip\<close>: \<open>ResumeDownload\<close> passes over a part whose temp file is recorded;
  \<^item> \<open>respond\<close>: a goroutine returns from \<open>tryDownloadPart\<close> and sends its response
    (the response channel has room for every part, so this never blocks);
  \<^item> \<open>release\<close>: a goroutine that has responded receives from \<open>sem\<close> (\<open><-sem\<close>) and ends.
  A part is in flight while its goroutine is inside \<open>tryDownloadPart\<close>.
\<close>

record sched =
  next_job :: nat
  acquired :: bool
  sem :: nat
  in_flight :: "nat set"
  responded :: "nat set"

definition sched_start :: sched where
  "sched_start = \<lparr>next_job = 0, acquired = False, sem = 0, in_flight = {}, responded = {}\<rparr>"

text \<open>
  The capacity of \<open>sem\<close>: \<open>PartCoroutineNum\<close>, or the number of parts if that is smaller;
  \<open>make(chan int, n)\<close> panics on a negative \<open>n\<close>.
\<close>

definition sem_capacity :: "int \<Rightarrow> int \<Rightarrow> go_panic + nat" where
  "sem_capacity PartCoroutineNum totalPart =
     (let partCoroutineNum = (if totalPart < PartCoroutineNum then totalPart else PartCoroutineNum)
      in if partCoroutineNum < 0 then Inl MakechanSizeOutOfRange else Inr (nat partCoroutineNum))"

text \<open>
  \<open>cap\<close> is the capacity of \<open>sem\<close> and \<open>jobs\<close> the number of iterations of the producer
  loop (\<open>len(jobs)\<close> in \<open>Download\<close>, \<open>len(snapshot.DoneParts)\<close> in \<open>ResumeDownload\<close>). The
  loop may stop early, on a failure or a cancellation: then it simply takes no further
  step.
\<close>

inductive sched_step :: "nat \<Rightarrow> nat \<Rightarrow> sched \<Rightarrow> sched \<Rightarrow> bool" for cap jobs where
  acquire: "\<not> acquired s \<Longrightarrow> next_job s < jobs \<Longrightarrow> sem s < cap \<Longrightarrow>
            sched_step cap jobs s (s\<lparr>acquired := True, sem := sem s + 1\<rparr>)"
| spawn: "acquired s \<Longrightarrow>
          sched_step cap jobs s
            (s\<lparr>acquired := False, in_flight := insert (next_job s) (in_flight s),
               next_job := next_job s + 1\<rparr>)"
| skip: "\<not> acquired s \<Longrightarrow> next_job s < jobs \<Longrightarrow>
         sched_step cap jobs s (s\<lparr>next_job := next_job s + 1\<rparr>)"
| respond: "j \<in> in_flight s \<Longrightarrow>
            sched_step cap jobs s
              (s\<lparr>in_flight := in_flight s - {j}, responded := insert j (responded s)\<rparr>)"
| release: "j \<in> responded s \<Longrightarrow> 0 < sem s \<Longrightarrow>
            sched_step cap jobs s (s\<lparr>responded := responded s - {j}, sem := sem s - 1\<rparr>)"

inductive sched_reachable :: "nat \<Rightarrow> nat \<Rightarrow> sched \<Rightarrow> bool" for cap jobs where
  start: "sched_reachable cap jobs sched_start"
| step: "sched_reachable cap jobs s \<Longrightarrow> sched_step cap jobs s s' \<Longrightarrow>
         sched_reachable cap jobs s'"

chapter \<open>Verification\<close>

section \<open>Properties of the part plan\<close>

lemma length_plan_loop:
  "length (plan_loop fs es tp i jobs) = length jobs"
proof (induction fs es tp i jobs rule: plan_loop.induct)
  case (1 fs es tp i jobs)
  show ?case
  proof (cases "i < length jobs")
    case True
    with "1" show ?thesis by (subst plan_loop.simps) simp
  next
    case False
    then show ?thesis by (subst plan_loop.simps) simp
  qed
qed

lemma plan_loop_below:
  "j < i \<Longrightarrow> plan_loop fs es tp i jobs ! j = jobs ! j"
proof (induction fs es tp i jobs rule: plan_loop.induct)
  case (1 fs es tp i jobs)
  show ?case
  proof (cases "i < length jobs")
    case True
    have "plan_loop fs es tp i jobs ! j
            = plan_loop fs es tp (Suc i) (jobs[i := plan_job fs es tp jobs i]) ! j"
      using True by (subst plan_loop.simps) simp
    also have "\<dots> = (jobs[i := plan_job fs es tp jobs i]) ! j"
      using "1.IH" [OF True] "1.prems" by simp
    also have "\<dots> = jobs ! j"
      using "1.prems" by simp
    finally show ?thesis .
  next
    case False
    then show ?thesis by (subst plan_loop.simps) simp
  qed
qed

lemma plan_job_cong:
  "(0 < i \<Longrightarrow> jobs ! (i - 1) = jobs' ! (i - 1)) \<Longrightarrow>
   plan_job fs es tp jobs i = plan_job fs es tp jobs' i"
  by (cases "i = 0") (simp_all add: plan_job_def)

lemma plan_loop_at:
  "i \<le> j \<Longrightarrow> j < length jobs \<Longrightarrow>
   plan_loop fs es tp i jobs ! j = plan_job fs es tp (plan_loop fs es tp i jobs) j"
proof (induction fs es tp i jobs rule: plan_loop.induct)
  case (1 fs es tp i jobs)
  let ?jobs' = "jobs[i := plan_job fs es tp jobs i]"
  have lt: "i < length jobs" using "1.prems" by simp
  have unfold: "plan_loop fs es tp i jobs = plan_loop fs es tp (Suc i) ?jobs'"
    using lt by (subst plan_loop.simps) simp
  show ?case
  proof (cases "j = i")
    case True
    have "plan_loop fs es tp (Suc i) ?jobs' ! i = ?jobs' ! i"
      by (rule plan_loop_below) simp
    also have "\<dots> = plan_job fs es tp jobs i"
      using lt by simp
    also have "\<dots> = plan_job fs es tp (plan_loop fs es tp (Suc i) ?jobs') i"
    proof (rule plan_job_cong)
      assume "0 < i"
      then have "plan_loop fs es tp (Suc i) ?jobs' ! (i - 1) = ?jobs' ! (i - 1)"
        by (intro plan_loop_below) simp
      also have "\<dots> = jobs ! (i - 1)"
        using \<open>0 < i\<close> by simp
      finally show "jobs ! (i - 1) = plan_loop fs es tp (Suc i) ?jobs' ! (i - 1)"
        by simp
    qed
    finally show ?thesis using True unfold by simp
  next
    case False
    then have "Suc i \<le> j" using "1.prems" by simp
    moreover have "j < length ?jobs'" using "1.prems" by simp
    ultimately show ?thesis
      using "1.IH" [OF lt] unfold by simp
  qed
qed

lemma chain_sum_take:
  assumes first: "From (ps ! 0) = 0"
    and chain: "\<And>i. 0 < i \<Longrightarrow> i < length ps \<Longrightarrow> From (ps ! i) = To (ps ! (i - 1)) + 1"
  shows "k < length ps \<Longrightarrow> sum_list (map part_len (take (Suc k) ps)) = To (ps ! k) + 1"
proof (induction k)
  case 0
  then show ?case
    using first by (simp add: take_Suc_conv_app_nth part_len_def)
next
  case (Suc k)
  then have k: "k < length ps" by simp
  have "sum_list (map part_len (take (Suc (Suc k)) ps))
          = sum_list (map part_len (take (Suc k) ps)) + part_len (ps ! Suc k)"
    using Suc.prems by (simp add: take_Suc_conv_app_nth [of "Suc k"])
  also have "\<dots> = To (ps ! k) + 1 + part_len (ps ! Suc k)"
    using Suc.IH [OF k] by simp
  also have "\<dots> = To (ps ! Suc k) + 1"
    using chain [of "Suc k"] Suc.prems by (simp add: part_len_def)
  finally show ?case .
qed

lemma plan_parts_Inr:
  "1 \<le> tp \<Longrightarrow>
   plan_parts fs tp =
     Inr (div_int64 fs (word_of_int tp),
          plan_loop fs (div_int64 fs (word_of_int tp)) tp 0 (replicate (nat tp) zero_Part))"
  by (simp add: plan_parts_def Let_def)

text \<open>
  Every plan with at least one part tiles the file: the first part starts at 0, each
  later part starts one byte after its predecessor ends, the last part ends at
  \<open>total_size - 1\<close>, and the lengths \<open>To - From + 1\<close> add up to \<open>total_size\<close>. The
  arithmetic is that of \<open>int64\<close>, so the statement covers wrap-around as well.
\<close>

lemma plan_parts_tile:
  assumes "1 \<le> totalPart"
  shows "\<exists>eachSize parts.
           plan_parts total_size totalPart = Inr (eachSize, parts) \<and>
           length parts = nat totalPart \<and>
           From (parts ! 0) = 0 \<and>
           (\<forall>i. 0 < i \<and> i < nat totalPart \<longrightarrow> From (parts ! i) = To (parts ! (i - 1)) + 1) \<and>
           To (parts ! (nat totalPart - 1)) = total_size - 1 \<and>
           sum_list (map part_len parts) = total_size"
proof -
  define es where "es = div_int64 total_size (word_of_int totalPart)"
  define parts where
    "parts = plan_loop total_size es totalPart 0 (replicate (nat totalPart) zero_Part)"
  have res: "plan_parts total_size totalPart = Inr (es, parts)"
    using assms by (simp add: plan_parts_Inr es_def parts_def)
  have len: "length parts = nat totalPart"
    by (simp add: parts_def length_plan_loop)
  have pos: "0 < nat totalPart" using assms by simp
  have at: "parts ! j = plan_job total_size es totalPart parts j" if "j < nat totalPart" for j
    unfolding parts_def using that by (intro plan_loop_at) simp_all
  have first: "From (parts ! 0) = 0"
    using at [OF pos] by (simp add: plan_job_def Let_def)
  have chain: "From (parts ! i) = To (parts ! (i - 1)) + 1"
    if "0 < i" "i < nat totalPart" for i
    using at [OF that(2)] that(1) by (simp add: plan_job_def Let_def)
  have last_lt: "nat totalPart - 1 < nat totalPart" using pos by simp
  have not_before: "\<not> int (nat totalPart - 1) < totalPart - 1"
    using assms by simp
  have "To (parts ! (nat totalPart - 1))
          = To (plan_job total_size es totalPart parts (nat totalPart - 1))"
    using at [OF last_lt] by simp
  also have "\<dots> = total_size - 1"
    using not_before by (simp add: plan_job_def Let_def)
  finally have last: "To (parts ! (nat totalPart - 1)) = total_size - 1" .
  have "sum_list (map part_len (take (Suc (nat totalPart - 1)) parts))
          = To (parts ! (nat totalPart - 1)) + 1"
    using first chain last_lt by (intro chain_sum_take) (simp_all add: len)
  moreover have "take (Suc (nat totalPart - 1)) parts = parts"
    using pos by (simp add: len)
  ultimately have total: "sum_list (map part_len parts) = total_size"
    using last by simp
  show ?thesis
    using res len first chain last total by blast
qed

lemma Download_plan_Inr:
  assumes "Download_plan oor fileTotalSize partSize totalPart = Inr (tp, eachSize, parts)"
  shows "1 \<le> tp \<and> plan_parts fileTotalSize tp = Inr (eachSize, parts)"
proof -
  from assms obtain tp' where
    tp': "Download_TotalPart oor fileTotalSize partSize totalPart = Inr tp'"
    by (auto simp: Download_plan_def split: sum.splits)
  with assms have pp: "plan_parts fileTotalSize tp' = Inr (eachSize, parts)" and eq: "tp' = tp"
    by (auto simp: Download_plan_def split: sum.splits)
  from pp have "1 \<le> tp'"
    by (auto simp: plan_parts_def split: if_splits)
  with pp eq show ?thesis by simp
qed

text \<open>
  C6. Whenever \<open>Download\<close> gets as far as a plan, the plan has \<open>total_part \<ge> 1\<close> parts and
  they tile \<open>[0, total_size)\<close>: \<open>parts[0].from = 0\<close>, \<open>parts[i].from = parts[i-1].to + 1\<close>
  for \<open>0 < i < total_part\<close>, \<open>parts[total_part-1].to = total_size - 1\<close>, and the lengths
  \<open>to - from + 1\<close> sum to \<open>total_size\<close> (the file size the plan was made for).
\<close>

theorem Download_plan_tiles:
  assumes "Download_plan oor total_size part_size preset = Inr (total_part, each_size, parts)"
  shows "1 \<le> total_part \<and>
         length parts = nat total_part \<and>
         From (parts ! 0) = 0 \<and>
         (\<forall>i. 0 < i \<and> i < nat total_part \<longrightarrow> From (parts ! i) = To (parts ! (i - 1)) + 1) \<and>
         To (parts ! (nat total_part - 1)) = total_size - 1 \<and>
         sum_list (map part_len parts) = total_size"
proof -
  from Download_plan_Inr [OF assms]
  have tp: "1 \<le> total_part" and pp: "plan_parts total_size total_part = Inr (each_size, parts)"
    by simp_all
  from plan_parts_tile [OF tp, of total_size] pp show ?thesis
    using tp by auto
qed

theorem Download_plan_tiles_witness:
  "Download_plan oor_amd64 25 10 0
     = Inr (3, 8, [\<lparr>Index = 0, From = 0, To = 8, FilePath = []\<rparr>,
                   \<lparr>Index = 1, From = 9, To = 17, FilePath = []\<rparr>,
                   \<lparr>Index = 2, From = 18, To = 24, FilePath = []\<rparr>]) \<and>
   sum_list (map part_len [\<lparr>Index = 0, From = 0, To = 8, FilePath = []\<rparr>,
                           \<lparr>Index = 1, From = 9, To = 17, FilePath = []\<rparr>,
                           \<lparr>Index = 2, From = 18, To = 24, FilePath = []\<rparr>]) = 25"
proof -
  have plan: "Download_plan oor_amd64 25 10 0
     = Inr (3, 8, [\<lparr>Index = 0, From = 0, To = 8, FilePath = []\<rparr>,
                   \<lparr>Index = 1, From = 9, To = 17, FilePath = []\<rparr>,
                   \<lparr>Index = 2, From = 18, To = 24, FilePath = []\<rparr>])"
    by code_simp
  from Download_plan_tiles [OF plan] plan show ?thesis by simp
qed

text \<open>
  C1, evaluated on the code. A 100 MiB file with the default part size of 10 MiB and no
  preset part count is planned in 10 parts with \<open>eachSize = 10485760\<close>, which is also the
  part size the snapshot records. Each of the first nine parts covers
  \<open>From .. From + eachSize\<close> inclusive, that is \<open>eachSize + 1 = 10485761\<close> bytes, and the
  last part is left with \<open>10485751\<close> bytes; the claim expects \<open>10485760\<close> bytes for every
  part.
\<close>

theorem Download_plan_part_lengths_100MiB:
  "(case Download_plan oor_amd64 104857600 10485760 0 of
      Inl p \<Rightarrow> False
    | Inr (total_part, each_size, parts) \<Rightarrow>
        total_part = 10 \<and> each_size = 10485760 \<and>
        PartSize (plan_snapshot snapshot total_part each_size parts) = 10485760 \<and>
        map part_len parts =
          [10485761, 10485761, 10485761, 10485761, 10485761,
           10485761, 10485761, 10485761, 10485761, 10485751])"
proof -
  have "Download_plan oor_amd64 104857600 10485760 0 =
    Inr (10, 10485760,
      [\<lparr>Index = 0, From = 0, To = 10485760, FilePath = []\<rparr>,
       \<lparr>Index = 1, From = 10485761, To = 20971521, FilePath = []\<rparr>,
       \<lparr>Index = 2, From = 20971522, To = 31457282, FilePath = []\<rparr>,
       \<lparr>Index = 3, From = 31457283, To = 41943043, FilePath = []\<rparr>,
       \<lparr>Index = 4, From = 41943044, To = 52428804, FilePath = []\<rparr>,
       \<lparr>Index = 5, From = 52428805, To = 62914565, FilePath = []\<rparr>,
       \<lparr>Index = 6, From = 62914566, To = 73400326, FilePath = []\<rparr>,
       \<lparr>Index = 7, From = 73400327, To = 83886087, FilePath = []\<rparr>,
       \<lparr>Index = 8, From = 83886088, To = 94371848, FilePath = []\<rparr>,
       \<lparr>Index = 9, From = 94371849, To = 104857599, FilePath = []\<rparr>])"
    by code_simp
  then show ?thesis
    by (simp add: plan_snapshot_def part_len_def)
qed

text \<open>
  With a small part size the longer parts run past the end of the file: for 150 bytes in
  parts of 1 byte the plan has 100 parts of 2 bytes each, part 75 starts at byte 150, and
  the last part is \<open>198 .. 149\<close>.
\<close>

lemma Download_plan_150_by_1:
  "(case Download_plan oor_amd64 150 1 0 of
      Inl p \<Rightarrow> False
    | Inr (total_part, each_size, parts) \<Rightarrow>
        total_part = 100 \<and> each_size = 1 \<and>
        From (parts ! 75) = 150 \<and> To (parts ! 75) = 151 \<and>
        From (parts ! 99) = 198 \<and> To (parts ! 99) = 149)"
  by code_simp

section \<open>float64: the ceiling of a quotient is exact below \<open>2^53\<close>\<close>

lemma pow2_pos: "0 < pow2 e"
  by (simp add: pow2_def)

lemma pow2_diff: "pow2 (e - int n) = pow2 e / 2 ^ n"
proof (cases "0 \<le> e")
  case True
  show ?thesis
  proof (cases "int n \<le> e")
    case True
    then have "nat e = nat (e - int n) + n" by simp
    then have "(2::rat) ^ nat e = 2 ^ nat (e - int n) * 2 ^ n"
      by (simp only: power_add)
    then show ?thesis using True \<open>0 \<le> e\<close> by (simp add: pow2_def)
  next
    case False
    then have "n = nat (int n - e) + nat e" using \<open>0 \<le> e\<close> by simp
    then have "(2::rat) ^ n = 2 ^ nat (int n - e) * 2 ^ nat e"
      by (metis power_add)
    then show ?thesis using False \<open>0 \<le> e\<close> by (simp add: pow2_def)
  qed
next
  case False
  then have "nat (int n - e) = nat (- e) + n" by simp
  then have "(2::rat) ^ nat (int n - e) = 2 ^ nat (- e) * 2 ^ n"
    by (simp only: power_add)
  then show ?thesis using False by (simp add: pow2_def)
qed

lemma pow2_shift: "pow2 (e - 52) = pow2 e / 2 ^ 52"
  using pow2_diff [of e 52] by simp

lemma pow2_low: "e \<le> 52 \<Longrightarrow> pow2 (e - 52) = 1 / 2 ^ nat (52 - e)"
  by (cases "e = 52") (simp_all add: pow2_def)

lemma binade_lower: "0 < x \<Longrightarrow> pow2 (binade x) \<le> x"
proof (cases "1 \<le> x")
  case True
  then have fl: "0 < \<lfloor>x\<rfloor>" by simp
  have b1: "1 \<le> bitlen \<lfloor>x\<rfloor>"
    using fl bitlen_eq_zero_iff [of "\<lfloor>x\<rfloor>"] bitlen_nonneg [of "\<lfloor>x\<rfloor>"] by linarith
  have "(2::int) ^ nat (bitlen \<lfloor>x\<rfloor> - 1) \<le> \<lfloor>x\<rfloor>"
    using bitlen_bounds [OF fl] by simp
  then have "(of_int ((2::int) ^ nat (bitlen \<lfloor>x\<rfloor> - 1)) :: rat) \<le> of_int \<lfloor>x\<rfloor>"
    by (simp only: of_int_le_iff)
  also have "\<dots> \<le> x" by simp
  finally show ?thesis using True b1 by (simp add: binade_def pow2_def)
next
  case False
  assume pos: "0 < x"
  let ?c = "\<lceil>1 / x\<rceil>"
  let ?t = "bitlen (?c - 1)"
  have inv: "1 < 1 / x" using False pos by simp
  then have c2: "0 < ?c - 1" by linarith
  have "?c - 1 < 2 ^ nat ?t" using bitlen_bounds [OF c2] by simp
  then have "?c \<le> 2 ^ nat ?t" by simp
  then have "(of_int ?c :: rat) \<le> of_int (2 ^ nat ?t)" by (simp only: of_int_le_iff)
  moreover have "1 / x \<le> of_int ?c" by (rule le_of_int_ceiling)
  moreover have "(of_int (2 ^ nat ?t) :: rat) = 2 ^ nat ?t" by simp
  ultimately have "1 / x \<le> 2 ^ nat ?t" by linarith
  then have "1 \<le> 2 ^ nat ?t * x" using pos by (simp add: field_simps)
  then have "1 / 2 ^ nat ?t \<le> x" by (simp add: field_simps)
  moreover have "0 < ?t"
    using c2 bitlen_eq_zero_iff [of "?c - 1"] bitlen_nonneg [of "?c - 1"] by linarith
  ultimately show ?thesis using False by (simp add: binade_def pow2_def)
qed

lemma binade_le_52: "0 < x \<Longrightarrow> x < 2 ^ 53 \<Longrightarrow> binade x \<le> 52"
proof (cases "1 \<le> x")
  case True
  assume "x < 2 ^ 53"
  have fl: "0 < \<lfloor>x\<rfloor>" using True by simp
  have "(of_int \<lfloor>x\<rfloor> :: rat) < 2 ^ 53" using \<open>x < 2 ^ 53\<close> of_int_floor_le [of x] by linarith
  then have lt: "\<lfloor>x\<rfloor> < 2 ^ 53" by (metis of_int_less_iff of_int_numeral of_int_power)
  have "(2::int) ^ nat (bitlen \<lfloor>x\<rfloor> - 1) \<le> \<lfloor>x\<rfloor>"
    using bitlen_bounds [OF fl] by simp
  then have "(2::int) ^ nat (bitlen \<lfloor>x\<rfloor> - 1) < 2 ^ 53" using lt by linarith
  then have "nat (bitlen \<lfloor>x\<rfloor> - 1) < 53"
    using power_less_imp_less_exp [of "2::int" "nat (bitlen \<lfloor>x\<rfloor> - 1)" 53] by simp
  then show ?thesis using True by (simp add: binade_def)
next
  case False
  then show ?thesis using bitlen_nonneg [of "\<lceil>1 / x\<rceil> - 1"] by (simp add: binade_def)
qed

lemma round_half_even_of_int: "round_half_even (of_int n) = n"
  by (simp add: round_half_even_def)

lemma round_half_even_le: "y \<le> of_int n \<Longrightarrow> round_half_even y \<le> n"
proof -
  assume le: "y \<le> of_int n"
  show ?thesis
  proof (cases "y = of_int n")
    case True then show ?thesis by (simp add: round_half_even_of_int)
  next
    case False
    then have "y < of_int n" using le by simp
    then have "\<lfloor>y\<rfloor> < n" by (simp add: floor_less_iff)
    then show ?thesis by (simp add: round_half_even_def Let_def)
  qed
qed

lemma round_half_even_ge: "of_int m + 1 / 2 < y \<Longrightarrow> m + 1 \<le> round_half_even y"
proof -
  assume gt: "of_int m + 1 / 2 < y"
  then have "of_int m \<le> y" by simp
  then have fl: "m \<le> \<lfloor>y\<rfloor>" by (simp add: le_floor_iff)
  show ?thesis
  proof (cases "m = \<lfloor>y\<rfloor>")
    case True
    then have "1 / 2 < y - of_int \<lfloor>y\<rfloor>" using gt by simp
    then show ?thesis using True by (simp add: round_half_even_def Let_def)
  next
    case False
    then have "m + 1 \<le> \<lfloor>y\<rfloor>" using fl by simp
    then show ?thesis by (simp add: round_half_even_def Let_def)
  qed
qed


lemma round53_unfold:
  assumes "0 < x" "x < 2 ^ 53"
  shows "round53 x = of_int (round_half_even (x * 2 ^ nat (52 - binade x))) / 2 ^ nat (52 - binade x)"
  using pow2_low [OF binade_le_52 [OF assms]] by (simp add: round53_def Let_def)

lemma round53_of_int:
  assumes "0 < n" "n < 2 ^ 53"
  shows "round53 (of_int n) = of_int n"
proof -
  let ?x = "of_int n :: rat"
  let ?d = "nat (52 - binade ?x)"
  have x: "0 < ?x" "?x < 2 ^ 53" using assms by simp_all
  have "?x * 2 ^ ?d = of_int (n * 2 ^ ?d)" by simp
  then have "round_half_even (?x * 2 ^ ?d) = n * 2 ^ ?d"
    by (simp only: round_half_even_of_int)
  then have "round53 ?x = of_int (n * 2 ^ ?d) / 2 ^ ?d"
    using round53_unfold [OF x] by simp
  then show ?thesis by simp
qed

lemma ceiling_round53_quotient:
  assumes a: "0 < a" "a < 2 ^ 53" and b: "0 < b" "b < 2 ^ 53"
  shows "\<lceil>round53 (of_int a / of_int b)\<rceil> = \<lceil>(of_int a / of_int b :: rat)\<rceil>"
proof -
  define x :: rat where "x = of_int a / of_int b"
  define k where "k = \<lceil>x\<rceil>"
  define d where "d = nat (52 - binade x)"
  define P :: rat where "P = 2 ^ d"
  define r where "r = round_half_even (x * P)"
  have bpos: "(0::rat) < of_int b" using b by simp
  have xpos: "0 < x" using a b by (simp add: x_def)
  have alt: "(of_int a :: rat) < 2 ^ 53"
  proof -
    have "(of_int a :: rat) < of_int (2 ^ 53)" using a by (simp only: of_int_less_iff)
    then show ?thesis by simp
  qed
  have "(1::rat) \<le> of_int b" using b by simp
  then have "of_int a / of_int b \<le> (of_int a :: rat) / 1"
    using a by (intro divide_left_mono) simp_all
  then have xlt: "x < 2 ^ 53" using alt by (simp add: x_def)
  have Ppos: "0 < P" by (simp add: P_def)
  have R: "round53 x = of_int r / P"
    using round53_unfold [OF xpos xlt] by (simp add: r_def P_def d_def)
  have upper: "of_int r / P \<le> of_int k"
  proof -
    have "x \<le> of_int k" by (simp add: k_def)
    then have "x * P \<le> of_int k * P" using Ppos by simp
    also have "\<dots> = of_int (k * 2 ^ d)" by (simp add: P_def)
    finally have "r \<le> k * 2 ^ d" unfolding r_def by (rule round_half_even_le)
    then have "(of_int r :: rat) \<le> of_int (k * 2 ^ d)" by (simp only: of_int_le_iff)
    then have "of_int r \<le> of_int k * P" by (simp add: P_def)
    then show ?thesis using Ppos by (simp add: field_simps)
  qed
  have lower: "of_int (k - 1) < of_int r / P"
  proof -
    have "of_int (k - 1) < x" by (simp add: k_def) linarith
    then have "of_int (k - 1) * of_int b < (of_int a :: rat)"
      using bpos by (simp add: x_def field_simps)
    then have "(k - 1) * b < a" by (metis of_int_less_iff of_int_mult)
    then have "(k - 1) * b + 1 \<le> a" by simp
    then have "(of_int ((k - 1) * b + 1) :: rat) \<le> of_int a" by (simp only: of_int_le_iff)
    then have "(of_int (k - 1) * of_int b + 1) / of_int b \<le> (of_int a :: rat) / of_int b"
      using bpos by (intro divide_right_mono) simp_all
    moreover have "(of_int (k - 1) * of_int b + 1) / of_int b = (of_int (k - 1) :: rat) + 1 / of_int b"
      using bpos by (simp add: add_divide_distrib)
    ultimately have gap: "of_int (k - 1) + 1 / of_int b \<le> x"
      by (simp add: x_def)
    have "pow2 (binade x) * of_int b \<le> x * of_int b"
      using binade_lower [OF xpos] bpos by simp
    also have "\<dots> = of_int a" using bpos by (simp add: x_def)
    also have "\<dots> < 2 ^ 53" by (rule alt)
    finally have e: "pow2 (binade x) * of_int b < 2 ^ 53" .
    have "pow2 (binade x - 52) = 1 / P"
      using pow2_low [OF binade_le_52 [OF xpos xlt]] by (simp add: P_def d_def)
    then have "pow2 (binade x) = 2 ^ 52 / P"
      using pow2_shift [of "binade x"] by simp
    then have "2 ^ 52 / P * of_int b < 2 ^ 53" using e by simp
    then have "of_int b < 2 * P" using Ppos by (simp add: field_simps)
    then have half: "1 / 2 < P / of_int b" using bpos by (simp add: field_simps)
    have "of_int ((k - 1) * 2 ^ d) + 1 / 2 < of_int (k - 1) * P + P / of_int b"
      using half by (simp add: P_def)
    also have "\<dots> = (of_int (k - 1) + 1 / of_int b) * P" by (simp add: algebra_simps)
    also have "\<dots> \<le> x * P" using gap Ppos by simp
    finally have "(k - 1) * 2 ^ d + 1 \<le> r" unfolding r_def by (rule round_half_even_ge)
    then have "(of_int ((k - 1) * 2 ^ d + 1) :: rat) \<le> of_int r" by (simp only: of_int_le_iff)
    then have "of_int (k - 1) * P + 1 \<le> of_int r" by (simp add: P_def)
    then have "of_int (k - 1) * P < of_int r" by linarith
    then show ?thesis using Ppos by (simp add: field_simps)
  qed
  have "\<lceil>of_int r / P\<rceil> = k"
    using upper lower by (simp add: ceiling_unique)
  then show ?thesis using R by (simp add: x_def k_def)
qed


lemma float64_of_int64_exact:
  assumes "0 \<le> sint a" "sint a < 2 ^ 53"
  shows "float64_of_int64 a = of_int (sint a)"
proof (cases "sint a = 0")
  case True
  then show ?thesis by (simp add: float64_of_int64_def round_float64_def)
next
  case False
  then have "0 < sint a" using assms by simp
  then show ?thesis
    using round53_of_int [OF _ assms(2)]
    by (simp add: float64_of_int64_def round_float64_def del: of_int_sint)
qed

lemma int_of_float64_of_int:
  "0 \<le> k \<Longrightarrow> k < 2 ^ 63 \<Longrightarrow> int_of_float64 oor (Finite (of_int k)) = k"
  by (simp add: int_of_float64_def)

lemma ceil_div_float64_exact:
  assumes a: "0 \<le> sint a" "sint a < 2 ^ 53" and b: "0 < sint b" "sint b < 2 ^ 53"
  shows "ceil_div_float64 oor a b = \<lceil>(of_int (sint a) :: rat) / of_int (sint b)\<rceil>"
proof -
  let ?A = "of_int (sint a) :: rat" and ?B = "of_int (sint b) :: rat"
  have fa: "float64_of_int64 a = ?A" by (rule float64_of_int64_exact [OF a])
  have fb: "float64_of_int64 b = ?B" using b by (intro float64_of_int64_exact) simp_all
  have Bpos: "0 < ?B" using b by (simp del: of_int_sint)
  have q: "\<lceil>round_float64 (?A / ?B)\<rceil> = \<lceil>?A / ?B\<rceil>"
  proof (cases "sint a = 0")
    case True
    then show ?thesis by (simp add: round_float64_def del: of_int_sint)
  next
    case False
    then have apos: "0 < sint a" using a by simp
    then have "0 < ?A" by (simp del: of_int_sint)
    then have "0 < ?A / ?B" using Bpos by simp
    then show ?thesis
      using ceiling_round53_quotient [OF apos a(2) b] by (simp add: round_float64_def del: of_int_sint)
  qed
  have Anonneg: "0 \<le> ?A" using a by (simp del: of_int_sint)
  have k0: "0 \<le> \<lceil>?A / ?B\<rceil>"
  proof -
    have "0 \<le> ?A / ?B" using Anonneg Bpos by (simp add: zero_le_divide_iff del: of_int_sint)
    then show ?thesis by (smt (verit) ceiling_mono ceiling_zero)
  qed
  have "(1::rat) \<le> ?B" using b by (simp del: of_int_sint)
  then have "?A / ?B \<le> ?A / 1" using Anonneg Bpos by (intro divide_left_mono) simp_all
  then have "\<lceil>?A / ?B\<rceil> \<le> \<lceil>?A / 1\<rceil>" by (rule ceiling_mono)
  then have "\<lceil>?A / ?B\<rceil> \<le> sint a" by (simp del: of_int_sint)
  moreover have "(2::int) ^ 53 < 2 ^ 63" by simp
  ultimately have k1: "\<lceil>?A / ?B\<rceil> < 2 ^ 63" using a(2) by linarith
  have "ceil_div_float64 oor a b = int_of_float64 oor (Finite (of_int \<lceil>round_float64 (?A / ?B)\<rceil>))"
    using Bpos by (simp add: ceil_div_float64_def fa fb float64_div_def del: of_int_sint)
  also have "\<dots> = \<lceil>?A / ?B\<rceil>"
    unfolding q by (rule int_of_float64_of_int [OF k0 k1])
  finally show ?thesis .
qed

text \<open>
  C7, as the code has it. With no preset part count (\<open>TotalPart = 0\<close>), a file size
  \<open>0 \<le> file_size < 2^53\<close> and a part size \<open>0 < part_size < 2^53\<close>, the planned part count
  is \<open>min(\<lceil>file_size / part_size\<rceil>, 100)\<close>: below \<open>2^53\<close> the float64 computation of the
  ceiling is exact.
\<close>

theorem Download_TotalPart_ceiling:
  assumes "0 \<le> sint file_size" "sint file_size < 2 ^ 53"
    and "0 < sint part_size" "sint part_size < 2 ^ 53"
  shows "Download_TotalPart oor file_size part_size 0 =
           Inr (min \<lceil>(of_int (sint file_size) :: rat) / of_int (sint part_size)\<rceil> 100)"
  using ceil_div_float64_exact [OF assms, of oor]
  by (simp add: Download_TotalPart_def Let_def min_def)

theorem Download_TotalPart_ceiling_witness:
  "0 \<le> sint (104857601 :: int64) \<and> sint (104857601 :: int64) < 2 ^ 53 \<and>
   0 < sint (10485760 :: int64) \<and> sint (10485760 :: int64) < 2 ^ 53 \<and>
   Download_TotalPart oor_amd64 104857601 10485760 0 = Inr 11"
proof -
  have "\<lceil>(104857601::rat) / 10485760\<rceil> = 11" by (rule ceiling_unique) simp_all
  then show ?thesis
    using Download_TotalPart_ceiling [of 104857601 10485760 oor_amd64] by simp
qed

text \<open>
  C7 as stated ("for every file size and part size") fails: \<open>float64(2^53 + 1)\<close> rounds to
  \<open>2^53\<close>, so a file of \<open>2^53 + 1\<close> bytes with parts of \<open>2^53\<close> bytes is planned as one
  part, while \<open>\<lceil>(2^53 + 1) / 2^53\<rceil> = 2\<close>.
\<close>

theorem Download_TotalPart_counterexample:
  "Download_TotalPart oor_amd64 9007199254740993 9007199254740992 0 = Inr 1 \<and>
   min \<lceil>(of_int (sint (9007199254740993 :: int64)) :: rat)
          / of_int (sint (9007199254740992 :: int64))\<rceil> 100 = 2 \<and>
   Download_TotalPart oor_amd64 9007199254740993 9007199254740992 0
     \<noteq> Inr (min \<lceil>(of_int (sint (9007199254740993 :: int64)) :: rat)
                   / of_int (sint (9007199254740992 :: int64))\<rceil> 100)"
  by code_simp

section \<open>The validation pass of ResumeDownload\<close>

text \<open>
  C10. After the validation pass the snapshot's \<open>DoneSize\<close>, read as a signed 64-bit
  integer, is not negative, whatever the input snapshot and whatever files exist.
\<close>

theorem ResumeDownload_validate_DoneSize_nonneg:
  "0 \<le> sint (DoneSize (fst (ResumeDownload_validate stat snapshot)))"
  by (simp add: ResumeDownload_validate_def word_sless_alt split: prod.splits)

text \<open>
  An inconsistent snapshot: \<open>done_size\<close> is 5, but the one recorded part has 10 bytes and
  its temp file is gone. The pass re-queues the part and stores 0, not -5.
\<close>

lemma ResumeDownload_validate_clamps_example:
  "ResumeDownload_validate (\<lambda>path. StatNotExist)
     \<lparr>FsID = 1, FileMd5 = ''m'', SavePath = ''out'', Recoverable = True, VipType = 0,
      DoneSize = 5, TotalSize = 10, PartSize = 10, TotalPart = 1,
      DoneParts = [\<lparr>snap_From = 0, snap_To = 9, snap_FilePath = ''out_0_1''\<rparr>]\<rparr>
   = (\<lparr>FsID = 1, FileMd5 = ''m'', SavePath = ''out'', Recoverable = True, VipType = 0,
       DoneSize = 0, TotalSize = 10, PartSize = 10, TotalPart = 1,
       DoneParts = [\<lparr>snap_From = 0, snap_To = 9, snap_FilePath = []\<rparr>]\<rparr>, [])"
  by (simp add: ResumeDownload_validate_def word_sless_alt)

section \<open>Path sanitisation\<close>

text \<open>
  C4, evaluated on the code. \<open>NewUploader\<close> leaves a single backslash in the path, and
  leaves the bytes NUL (0x00) and VT (0x0B) in it; the claim, like the comment above
  \<open>handleSpecialChar\<close>, has all three removed. What the code removes instead are the
  character sequences backslash-backslash, backslash-0 and backslash-x-0-B.
\<close>

theorem NewUploader_keeps_backslash_NUL_VT:
  "Path (NewUploader ''token'' [CHR ''a'', CHR 0x5C, CHR ''b''] ''local'') = [CHR ''a'', CHR 0x5C, CHR ''b''] \<and>
   strip_forbidden [CHR ''a'', CHR 0x5C, CHR ''b''] = ''ab'' \<and>
   Path (NewUploader ''token'' [CHR ''a'', CHR 0x00, CHR 0x0B, CHR ''b''] ''local'')
     = [CHR ''a'', CHR 0x00, CHR 0x0B, CHR ''b''] \<and>
   strip_forbidden [CHR ''a'', CHR 0x00, CHR 0x0B, CHR ''b''] = ''ab'' \<and>
   Path (NewUploader ''token'' [CHR ''a'', CHR 0x5C, CHR ''0'', CHR ''b''] ''local'') = ''ab'' \<and>
   strip_forbidden [CHR ''a'', CHR 0x5C, CHR ''0'', CHR ''b''] = ''a0b''"
  by (simp add: NewUploader_def handleSpecialChar_def specialChars_def
        strip_forbidden_def forbidden_chars_def)

section \<open>The retry loops\<close>

lemma foldl_plus_sum_list: "foldl (+) (a :: int64) xs = a + sum_list xs"
  by (induction xs arbitrary: a) (simp_all add: add.assoc)

lemma tryDownloadPart_loop_end:
  "tryDownloadPart_loop dp ctx part 10 rp e d = ((rp, e), [])"
  by (subst tryDownloadPart_loop.simps) simp

lemma tryDownloadPart_loop_success:
  "i < 10 \<Longrightarrow> da_err (dp i) = None \<Longrightarrow>
   tryDownloadPart_loop dp ctx part i rp e 0 =
     ((downloadPart_retPart part (dp i), None), download_attempt_events part dp i)"
  by (subst tryDownloadPart_loop.simps) (simp add: Let_def download_attempt_events_def)

lemma tryDownloadPart_loop_cancelled:
  "i < 10 \<Longrightarrow> da_err (dp i) = Some x \<Longrightarrow> ctx i = Some c \<Longrightarrow>
   tryDownloadPart_loop dp ctx part i rp e 0 =
     ((downloadPart_retPart part (dp i), Some x), download_attempt_events part dp i)"
  by (subst tryDownloadPart_loop.simps)
     (simp add: Let_def download_attempt_events_def foldl_plus_sum_list)

lemma tryDownloadPart_loop_retry:
  "i < 10 \<Longrightarrow> da_err (dp i) = Some x \<Longrightarrow> ctx i = None \<Longrightarrow>
   tryDownloadPart_loop dp ctx part i rp e 0 =
     (case tryDownloadPart_loop dp ctx part (Suc i) (downloadPart_retPart part (dp i)) (Some x) 0 of
        (res, evs) \<Rightarrow> (res, download_attempt_events part dp i @ evs))"
  by (subst tryDownloadPart_loop.simps)
     (simp add: Let_def download_attempt_events_def foldl_plus_sum_list split: prod.splits)

lemma tryDownloadPart_loop_run:
  assumes "i \<le> n" "n < 10"
    and "\<forall>j. i \<le> j \<and> j < n \<longrightarrow> da_err (dp j) \<noteq> None \<and> ctx j = None"
    and "da_err (dp n) = None \<or> ctx n \<noteq> None \<or> n = 9"
  shows "tryDownloadPart_loop dp ctx part i rp e 0 =
           ((downloadPart_retPart part (dp n), da_err (dp n)),
            concat (map (download_attempt_events part dp) [i..<Suc n]))"
  using assms
proof (induction "n - i" arbitrary: i rp e)
  case 0
  then have in_eq: "i = n" by simp
  have single: "concat (map (download_attempt_events part dp) [n..<Suc n]) = download_attempt_events part dp n"
    by simp
  show ?case
  proof (cases "da_err (dp n)")
    case None
    then show ?thesis
      unfolding in_eq single using \<open>n < 10\<close> by (simp add: tryDownloadPart_loop_success)
  next
    case (Some x)
    show ?thesis
    proof (cases "ctx n")
      case (Some c)
      then show ?thesis
        unfolding in_eq single using \<open>n < 10\<close> \<open>da_err (dp n) = Some x\<close>
        by (simp add: tryDownloadPart_loop_cancelled)
    next
      case None
      then have n9: "n = 9" using "0.prems"(4) \<open>da_err (dp n) = Some x\<close> by simp
      have "tryDownloadPart_loop dp ctx part 9 rp e 0 =
        (case tryDownloadPart_loop dp ctx part (Suc 9) (downloadPart_retPart part (dp 9)) (Some x) 0 of
          (res, evs) \<Rightarrow> (res, download_attempt_events part dp 9 @ evs))"
        using None \<open>da_err (dp n) = Some x\<close> n9 by (intro tryDownloadPart_loop_retry) simp_all
      also have "\<dots> = ((downloadPart_retPart part (dp 9), Some x), download_attempt_events part dp 9)"
        by (simp add: tryDownloadPart_loop_end)
      finally show ?thesis
        unfolding in_eq single using n9 \<open>da_err (dp n) = Some x\<close> by simp
    qed
  qed
next
  case (Suc k)
  then have lt: "i < n" by simp
  then obtain x where fail: "da_err (dp i) = Some x" and live: "ctx i = None"
    using Suc.prems(3) by auto
  have IH: "tryDownloadPart_loop dp ctx part (Suc i) rp' e' 0 =
           ((downloadPart_retPart part (dp n), da_err (dp n)),
            concat (map (download_attempt_events part dp) [Suc i..<Suc n]))" for rp' e'
    using Suc.hyps(2) Suc.prems lt by (intro Suc.hyps(1)) auto
  have up: "[i..<Suc n] = i # [Suc i..<Suc n]"
    using lt by (simp add: upt_conv_Cons)
  have i10: "i < 10" using lt \<open>n < 10\<close> by simp
  have "tryDownloadPart_loop dp ctx part i rp e 0 =
      (case tryDownloadPart_loop dp ctx part (Suc i) (downloadPart_retPart part (dp i)) (Some x) 0 of
        (res, evs) \<Rightarrow> (res, download_attempt_events part dp i @ evs))"
    using i10 fail live by (rule tryDownloadPart_loop_retry)
  then show ?case
    unfolding up IH by simp
qed


lemma stop_index_exists:
  "\<exists>n<10. (\<forall>j<n. \<not> P j) \<and> (P n \<or> n = (9::nat))"
proof (cases "\<exists>n<10. P n")
  case True
  then obtain m where m: "m < 10" "P m" by blast
  define n where "n = (LEAST k. P k)"
  have "P n" unfolding n_def using m(2) by (rule LeastI)
  moreover have "n \<le> m" unfolding n_def using m(2) by (rule Least_le)
  moreover have "\<forall>j<n. \<not> P j" unfolding n_def using not_less_Least by blast
  ultimately show ?thesis using m(1) by (intro exI [of _ n]) simp
next
  case False
  then show ?thesis by (intro exI [of _ 9]) simp
qed

lemma progress_sum_append: "progress_sum (xs @ ys) = progress_sum xs + progress_sum ys"
  by (induction xs rule: progress_sum.induct) (simp_all add: add.assoc)

lemma progress_sum_map_Progress: "progress_sum (map Progress rs) = sum_list rs"
  by (induction rs) simp_all

lemma Download_doneSize_eq: "Download_doneSize d evs = d + progress_sum evs"
  by (induction d evs rule: Download_doneSize.induct) (simp_all add: add.assoc)

lemma progress_sum_download_attempt_failed:
  assumes "da_err (dp j) \<noteq> None"
  shows "progress_sum (download_attempt_events part dp j) = 0"
proof -
  from assms obtain x where "da_err (dp j) = Some x" by blast
  then show ?thesis
    by (simp add: download_attempt_events_def progress_sum_append progress_sum_map_Progress)
qed

lemma progress_sum_download_attempt_ok:
  "da_err (dp j) = None \<Longrightarrow>
   progress_sum (download_attempt_events part dp j) = sum_list (da_reports (dp j))"
  by (simp add: download_attempt_events_def progress_sum_append progress_sum_map_Progress)

lemma progress_sum_concat_failed:
  "\<forall>j\<in>set js. progress_sum (f j) = 0 \<Longrightarrow> progress_sum (concat (map f js)) = 0"
  by (induction js) (simp_all add: progress_sum_append)

lemma attempts_of_append: "attempts_of (xs @ ys) = attempts_of xs @ attempts_of ys"
  by (induction xs rule: attempts_of.induct) simp_all

lemma attempts_of_map_Progress: "attempts_of (map Progress rs) = []"
  by (induction rs) simp_all

lemma attempts_of_download_attempt: "attempts_of (download_attempt_events part dp j) = [j]"
  by (simp add: download_attempt_events_def attempts_of_append attempts_of_map_Progress)

lemma attempts_of_concat:
  "\<forall>j\<in>set js. attempts_of (f j) = [j] \<Longrightarrow> attempts_of (concat (map f js)) = js"
  by (induction js) (simp_all add: attempts_of_append)

lemma tryDownloadPart_run:
  "\<exists>n<10. (\<forall>j<n. da_err (dp j) \<noteq> None \<and> ctx j = None) \<and>
          (da_err (dp n) = None \<or> ctx n \<noteq> None \<or> n = 9) \<and>
          tryDownloadPart dp ctx part =
            ((downloadPart_retPart part (dp n), da_err (dp n)),
             concat (map (download_attempt_events part dp) [0..<Suc n]))"
proof -
  obtain n where n: "n < 10" "\<forall>j<n. \<not> (da_err (dp j) = None \<or> ctx j \<noteq> None)"
      "(da_err (dp n) = None \<or> ctx n \<noteq> None) \<or> n = 9"
    using stop_index_exists [of "\<lambda>j. da_err (dp j) = None \<or> ctx j \<noteq> None"] by blast
  have "tryDownloadPart_loop dp ctx part 0 zero_Part None 0 =
          ((downloadPart_retPart part (dp n), da_err (dp n)),
           concat (map (download_attempt_events part dp) [0..<Suc n]))"
    using n by (intro tryDownloadPart_loop_run) auto
  then show ?thesis
    using n unfolding tryDownloadPart_def by (intro exI [of _ n]) auto
qed

lemma TrySuperFile2Upload_loop_end:
  "TrySuperFile2Upload_loop up ctx 10 rp e d = ((rp, e), [])"
  by (subst TrySuperFile2Upload_loop.simps) simp

lemma TrySuperFile2Upload_loop_success:
  "i < 10 \<Longrightarrow> ua_err (up i) = None \<Longrightarrow>
   TrySuperFile2Upload_loop up ctx i rp e 0 =
     ((ua_resp (up i), None), upload_attempt_events up i)"
  by (subst TrySuperFile2Upload_loop.simps) (simp add: Let_def upload_attempt_events_def)

lemma TrySuperFile2Upload_loop_cancelled:
  "i < 10 \<Longrightarrow> ua_err (up i) = Some x \<Longrightarrow> ctx i = Some c \<Longrightarrow>
   TrySuperFile2Upload_loop up ctx i rp e 0 =
     ((ua_resp (up i), Some x), upload_attempt_events up i)"
  by (subst TrySuperFile2Upload_loop.simps)
     (simp add: Let_def upload_attempt_events_def foldl_plus_sum_list)

lemma TrySuperFile2Upload_loop_retry:
  "i < 10 \<Longrightarrow> ua_err (up i) = Some x \<Longrightarrow> ctx i = None \<Longrightarrow>
   TrySuperFile2Upload_loop up ctx i rp e 0 =
     (case TrySuperFile2Upload_loop up ctx (Suc i) (ua_resp (up i)) (Some x) 0 of
        (res, evs) \<Rightarrow> (res, upload_attempt_events up i @ evs))"
  by (subst TrySuperFile2Upload_loop.simps)
     (simp add: Let_def upload_attempt_events_def foldl_plus_sum_list split: prod.splits)

lemma TrySuperFile2Upload_loop_run:
  assumes "i \<le> n" "n < 10"
    and "\<forall>j. i \<le> j \<and> j < n \<longrightarrow> ua_err (up j) \<noteq> None \<and> ctx j = None"
    and "ua_err (up n) = None \<or> ctx n \<noteq> None \<or> n = 9"
  shows "TrySuperFile2Upload_loop up ctx i rp e 0 =
           ((ua_resp (up n), ua_err (up n)),
            concat (map (upload_attempt_events up) [i..<Suc n]))"
  using assms
proof (induction "n - i" arbitrary: i rp e)
  case 0
  then have in_eq: "i = n" by simp
  have single: "concat (map (upload_attempt_events up) [n..<Suc n]) = upload_attempt_events up n"
    by simp
  show ?case
  proof (cases "ua_err (up n)")
    case None
    then show ?thesis
      unfolding in_eq single using \<open>n < 10\<close> by (simp add: TrySuperFile2Upload_loop_success)
  next
    case (Some x)
    show ?thesis
    proof (cases "ctx n")
      case (Some c)
      then show ?thesis
        unfolding in_eq single using \<open>n < 10\<close> \<open>ua_err (up n) = Some x\<close>
        by (simp add: TrySuperFile2Upload_loop_cancelled)
    next
      case None
      then have n9: "n = 9" using "0.prems"(4) \<open>ua_err (up n) = Some x\<close> by simp
      have "TrySuperFile2Upload_loop up ctx 9 rp e 0 =
        (case TrySuperFile2Upload_loop up ctx (Suc 9) (ua_resp (up 9)) (Some x) 0 of
          (res, evs) \<Rightarrow> (res, upload_attempt_events up 9 @ evs))"
        using None \<open>ua_err (up n) = Some x\<close> n9 by (intro TrySuperFile2Upload_loop_retry) simp_all
      also have "\<dots> = ((ua_resp (up 9), Some x), upload_attempt_events up 9)"
        by (simp add: TrySuperFile2Upload_loop_end)
      finally show ?thesis
        unfolding in_eq single using n9 \<open>ua_err (up n) = Some x\<close> by simp
    qed
  qed
next
  case (Suc k)
  then have lt: "i < n" by simp
  then obtain x where fail: "ua_err (up i) = Some x" and live: "ctx i = None"
    using Suc.prems(3) by auto
  have IH: "TrySuperFile2Upload_loop up ctx (Suc i) rp' e' 0 =
           ((ua_resp (up n), ua_err (up n)),
            concat (map (upload_attempt_events up) [Suc i..<Suc n]))" for rp' e'
    using Suc.hyps(2) Suc.prems lt by (intro Suc.hyps(1)) auto
  have up: "[i..<Suc n] = i # [Suc i..<Suc n]"
    using lt by (simp add: upt_conv_Cons)
  have i10: "i < 10" using lt \<open>n < 10\<close> by simp
  have "TrySuperFile2Upload_loop up ctx i rp e 0 =
      (case TrySuperFile2Upload_loop up ctx (Suc i) (ua_resp (up i)) (Some x) 0 of
        (res, evs) \<Rightarrow> (res, upload_attempt_events up i @ evs))"
    using i10 fail live by (rule TrySuperFile2Upload_loop_retry)
  then show ?case
    unfolding up IH by simp
qed

lemma progress_sum_upload_attempt_failed:
  assumes "ua_err (up j) \<noteq> None"
  shows "progress_sum (upload_attempt_events up j) = 0"
proof -
  from assms obtain x where "ua_err (up j) = Some x" by blast
  then show ?thesis
    by (simp add: upload_attempt_events_def progress_sum_append progress_sum_map_Progress)
qed

lemma progress_sum_upload_attempt_ok:
  "ua_err (up j) = None \<Longrightarrow>
   progress_sum (upload_attempt_events up j) = sum_list (ua_reports (up j))"
  by (simp add: upload_attempt_events_def progress_sum_append progress_sum_map_Progress)

lemma attempts_of_upload_attempt: "attempts_of (upload_attempt_events up j) = [j]"
  by (simp add: upload_attempt_events_def attempts_of_append attempts_of_map_Progress)

lemma TrySuperFile2Upload_run:
  "\<exists>n<10. (\<forall>j<n. ua_err (up j) \<noteq> None \<and> ctx j = None) \<and>
          (ua_err (up n) = None \<or> ctx n \<noteq> None \<or> n = 9) \<and>
          TrySuperFile2Upload up ctx =
            ((ua_resp (up n), ua_err (up n)),
             concat (map (upload_attempt_events up) [0..<Suc n]))"
proof -
  obtain n where n: "n < 10" "\<forall>j<n. \<not> (ua_err (up j) = None \<or> ctx j \<noteq> None)"
      "(ua_err (up n) = None \<or> ctx n \<noteq> None) \<or> n = 9"
    using stop_index_exists [of "\<lambda>j. ua_err (up j) = None \<or> ctx j \<noteq> None"] by blast
  have "TrySuperFile2Upload_loop up ctx 0 zero_SuperFile2UploadResponse None 0 =
          ((ua_resp (up n), ua_err (up n)),
           concat (map (upload_attempt_events up) [0..<Suc n]))"
    using n by (intro TrySuperFile2Upload_loop_run) auto
  then show ?thesis
    using n unfolding TrySuperFile2Upload_def by (intro exI [of _ n]) auto
qed

lemma Upload_doneSize_not_clamped:
  "\<not> Upload_clamped fileSize d evs \<Longrightarrow> Upload_doneSize fileSize d evs = d + progress_sum evs"
  by (induction fileSize d evs rule: Upload_doneSize.induct) (auto simp add: add.assoc)

text \<open>
  C5, as the code has it. Whatever the attempts do and whenever the context is cancelled,
  the events of \<open>tryDownloadPart\<close> are those of the attempts \<open>0 .. n\<close> for some \<open>n < 10\<close>, one
  attempt after the other, where the attempts before \<open>n\<close> all failed. The events of a
  failed attempt are its progress reports, the removal of its temp file and one negative
  delta equal to the sum of its reports, so they add nothing to the \<open>doneSize\<close> of
  \<open>Download\<close>; what the whole loop adds to that \<open>doneSize\<close> are the bytes of attempt \<open>n\<close> if it
  succeeded, and nothing otherwise. \<open>TrySuperFile2Upload\<close> passes on deltas in the same way
  (no file is removed there): the deltas of a failed attempt sum to zero and those of the
  whole loop to the bytes of the successful attempt. The \<open>doneSize\<close> of \<open>Upload\<close> and
  \<open>ResumeUpload\<close> changes by that sum in the runs in which its handler never cuts it down
  to the file size.
\<close>

theorem retry_rollback_exact:
  "(\<exists>n<10.
     snd (tryDownloadPart downloadPart ctx_Err part)
       = concat (map (download_attempt_events part downloadPart) [0..<Suc n]) \<and>
     (\<forall>j<n. da_err (downloadPart j) \<noteq> None) \<and>
     (\<forall>j\<le>n. da_err (downloadPart j) \<noteq> None \<longrightarrow>
              progress_sum (download_attempt_events part downloadPart j) = 0) \<and>
     snd (fst (tryDownloadPart downloadPart ctx_Err part)) = da_err (downloadPart n) \<and>
     progress_sum (snd (tryDownloadPart downloadPart ctx_Err part))
       = (if da_err (downloadPart n) = None then sum_list (da_reports (downloadPart n)) else 0) \<and>
     Download_doneSize doneSize (snd (tryDownloadPart downloadPart ctx_Err part))
       = doneSize + (if da_err (downloadPart n) = None then sum_list (da_reports (downloadPart n)) else 0))
   \<and>
   (\<exists>m<10.
     snd (TrySuperFile2Upload SuperFile2Upload ctx_Err')
       = concat (map (upload_attempt_events SuperFile2Upload) [0..<Suc m]) \<and>
     (\<forall>j<m. ua_err (SuperFile2Upload j) \<noteq> None) \<and>
     (\<forall>j\<le>m. ua_err (SuperFile2Upload j) \<noteq> None \<longrightarrow>
              progress_sum (upload_attempt_events SuperFile2Upload j) = 0) \<and>
     snd (fst (TrySuperFile2Upload SuperFile2Upload ctx_Err')) = ua_err (SuperFile2Upload m) \<and>
     progress_sum (snd (TrySuperFile2Upload SuperFile2Upload ctx_Err'))
       = (if ua_err (SuperFile2Upload m) = None then sum_list (ua_reports (SuperFile2Upload m)) else 0) \<and>
     (\<not> Upload_clamped fileSize doneSize' (snd (TrySuperFile2Upload SuperFile2Upload ctx_Err')) \<longrightarrow>
        Upload_doneSize fileSize doneSize' (snd (TrySuperFile2Upload SuperFile2Upload ctx_Err'))
          = doneSize' + (if ua_err (SuperFile2Upload m) = None
                         then sum_list (ua_reports (SuperFile2Upload m)) else 0)))"
proof
  obtain n where n: "n < 10" "\<forall>j<n. da_err (downloadPart j) \<noteq> None \<and> ctx_Err j = None"
    and run: "tryDownloadPart downloadPart ctx_Err part =
            ((downloadPart_retPart part (downloadPart n), da_err (downloadPart n)),
             concat (map (download_attempt_events part downloadPart) [0..<Suc n]))"
    using tryDownloadPart_run [of downloadPart ctx_Err part] by blast
  let ?evs = "concat (map (download_attempt_events part downloadPart) [0..<Suc n])"
  have "progress_sum (concat (map (download_attempt_events part downloadPart) [0..<n])) = 0"
    using n(2) by (intro progress_sum_concat_failed) (simp add: progress_sum_download_attempt_failed)
  then have "progress_sum ?evs = progress_sum (download_attempt_events part downloadPart n)"
    by (simp add: progress_sum_append)
  also have "\<dots> = (if da_err (downloadPart n) = None then sum_list (da_reports (downloadPart n)) else 0)"
    by (simp add: progress_sum_download_attempt_failed progress_sum_download_attempt_ok)
  finally have ps: "progress_sum ?evs =
      (if da_err (downloadPart n) = None then sum_list (da_reports (downloadPart n)) else 0)" .
  show "\<exists>n<10.
     snd (tryDownloadPart downloadPart ctx_Err part)
       = concat (map (download_attempt_events part downloadPart) [0..<Suc n]) \<and>
     (\<forall>j<n. da_err (downloadPart j) \<noteq> None) \<and>
     (\<forall>j\<le>n. da_err (downloadPart j) \<noteq> None \<longrightarrow>
              progress_sum (download_attempt_events part downloadPart j) = 0) \<and>
     snd (fst (tryDownloadPart downloadPart ctx_Err part)) = da_err (downloadPart n) \<and>
     progress_sum (snd (tryDownloadPart downloadPart ctx_Err part))
       = (if da_err (downloadPart n) = None then sum_list (da_reports (downloadPart n)) else 0) \<and>
     Download_doneSize doneSize (snd (tryDownloadPart downloadPart ctx_Err part))
       = doneSize + (if da_err (downloadPart n) = None then sum_list (da_reports (downloadPart n)) else 0)"
    using n ps
    by (intro exI [of _ n])
       (simp add: run Download_doneSize_eq progress_sum_download_attempt_failed)
next
  obtain m where m: "m < 10" "\<forall>j<m. ua_err (SuperFile2Upload j) \<noteq> None \<and> ctx_Err' j = None"
    and run: "TrySuperFile2Upload SuperFile2Upload ctx_Err' =
            ((ua_resp (SuperFile2Upload m), ua_err (SuperFile2Upload m)),
             concat (map (upload_attempt_events SuperFile2Upload) [0..<Suc m]))"
    using TrySuperFile2Upload_run [of SuperFile2Upload ctx_Err'] by blast
  let ?evs = "concat (map (upload_attempt_events SuperFile2Upload) [0..<Suc m])"
  let ?bytes = "if ua_err (SuperFile2Upload m) = None
                then sum_list (ua_reports (SuperFile2Upload m)) else 0"
  have "progress_sum (concat (map (upload_attempt_events SuperFile2Upload) [0..<m])) = 0"
    using m(2) by (intro progress_sum_concat_failed) (simp add: progress_sum_upload_attempt_failed)
  then have "progress_sum ?evs = progress_sum (upload_attempt_events SuperFile2Upload m)"
    by (simp add: progress_sum_append)
  also have "\<dots> = ?bytes"
    by (simp add: progress_sum_upload_attempt_failed progress_sum_upload_attempt_ok)
  finally have ps: "progress_sum ?evs = ?bytes" .
  have evs: "snd (TrySuperFile2Upload SuperFile2Upload ctx_Err') = ?evs"
    by (simp add: run)
  have failed: "\<forall>j<m. ua_err (SuperFile2Upload j) \<noteq> None"
    using m(2) by simp
  have rolled: "\<forall>j\<le>m. ua_err (SuperFile2Upload j) \<noteq> None \<longrightarrow>
                  progress_sum (upload_attempt_events SuperFile2Upload j) = 0"
    by (simp add: progress_sum_upload_attempt_failed)
  have err: "snd (fst (TrySuperFile2Upload SuperFile2Upload ctx_Err')) = ua_err (SuperFile2Upload m)"
    by (simp add: run)
  have total: "Upload_doneSize fileSize doneSize' ?evs = doneSize' + ?bytes"
    if "\<not> Upload_clamped fileSize doneSize' ?evs"
    using Upload_doneSize_not_clamped [OF that] ps by simp
  show "\<exists>m<10.
     snd (TrySuperFile2Upload SuperFile2Upload ctx_Err')
       = concat (map (upload_attempt_events SuperFile2Upload) [0..<Suc m]) \<and>
     (\<forall>j<m. ua_err (SuperFile2Upload j) \<noteq> None) \<and>
     (\<forall>j\<le>m. ua_err (SuperFile2Upload j) \<noteq> None \<longrightarrow>
              progress_sum (upload_attempt_events SuperFile2Upload j) = 0) \<and>
     snd (fst (TrySuperFile2Upload SuperFile2Upload ctx_Err')) = ua_err (SuperFile2Upload m) \<and>
     progress_sum (snd (TrySuperFile2Upload SuperFile2Upload ctx_Err'))
       = (if ua_err (SuperFile2Upload m) = None then sum_list (ua_reports (SuperFile2Upload m)) else 0) \<and>
     (\<not> Upload_clamped fileSize doneSize' (snd (TrySuperFile2Upload SuperFile2Upload ctx_Err')) \<longrightarrow>
        Upload_doneSize fileSize doneSize' (snd (TrySuperFile2Upload SuperFile2Upload ctx_Err'))
          = doneSize' + (if ua_err (SuperFile2Upload m) = None
                         then sum_list (ua_reports (SuperFile2Upload m)) else 0))"
    unfolding evs
    using m(1) failed rolled err ps total by (intro exI [of _ m]) blast
qed

theorem retry_rollback_exact_witness:
  "snd (tryDownloadPart second_try_downloadPart live_ctx ten_byte_Part)
     = [Attempt 0, Progress 3, Progress 4, Remove ''tmp_0'', Progress (- 7),
        Sleep 6, Attempt 1, Progress 5, Progress 5] \<and>
   Download_doneSize 20 (snd (tryDownloadPart second_try_downloadPart live_ctx ten_byte_Part)) = 30 \<and>
   snd (TrySuperFile2Upload second_try_SuperFile2Upload live_ctx)
     = [Attempt 0, Progress 194, Progress (- 194), Sleep 6, Attempt 1, Progress 194] \<and>
   progress_sum (snd (TrySuperFile2Upload second_try_SuperFile2Upload live_ctx)) = 194 \<and>
   \<not> Upload_clamped 1000 0 (snd (TrySuperFile2Upload second_try_SuperFile2Upload live_ctx)) \<and>
   Upload_doneSize 1000 0 (snd (TrySuperFile2Upload second_try_SuperFile2Upload live_ctx)) = 194"
proof -
  have d: "tryDownloadPart second_try_downloadPart live_ctx ten_byte_Part =
      ((ten_byte_Part\<lparr>FilePath := ''tmp_1''\<rparr>, None),
       [Attempt 0, Progress 3, Progress 4, Remove ''tmp_0'', Progress (- 7),
        Sleep 6, Attempt 1, Progress 5, Progress 5])"
    by (simp add: tryDownloadPart_def tryDownloadPart_loop.simps second_try_downloadPart_def
          live_ctx_def downloadPart_retPart_def ten_byte_Part_def zero_Part_def Let_def)
  have u: "snd (TrySuperFile2Upload second_try_SuperFile2Upload live_ctx)
      = [Attempt 0, Progress 194, Progress (- 194), Sleep 6, Attempt 1, Progress 194]"
    by (simp add: TrySuperFile2Upload_def TrySuperFile2Upload_loop.simps
          second_try_SuperFile2Upload_def live_ctx_def Let_def)
  have c: "\<not> Upload_clamped 1000 0 [Attempt 0, Progress 194, Progress (- 194), Sleep 6, Attempt 1, Progress 194]"
    by (simp add: word_sless_alt)
  from retry_rollback_exact
         [of second_try_downloadPart live_ctx ten_byte_Part 20 second_try_SuperFile2Upload live_ctx 1000 0]
  show ?thesis
    unfolding d u using c by simp
qed

text \<open>
  C5 as stated, for \<open>TrySuperFile2Upload\<close>: a failed attempt's net contribution to the
  \<open>doneSize\<close> of \<open>Upload\<close> is not always zero. A file of 4 bytes is one slice; its multipart
  body has 194 bytes. The attempt sends the body and is answered with status 500, and the
  context is cancelled when the loop checks it. The handler adds 194 to \<open>doneSize = 0\<close>,
  cuts the result down to the file size 4, and then adds the rollback delta \<open>-194\<close>: the
  deltas sum to zero, and \<open>doneSize\<close> ends at \<open>-190\<close>.
\<close>

theorem retry_rollback_upload_clamp_counterexample:
  "snd (TrySuperFile2Upload second_try_SuperFile2Upload cancelled_ctx)
     = [Attempt 0, Progress 194, Progress (- 194)] \<and>
   snd (fst (TrySuperFile2Upload second_try_SuperFile2Upload cancelled_ctx))
     = Some (OtherError ''http error status: 500'') \<and>
   progress_sum (snd (TrySuperFile2Upload second_try_SuperFile2Upload cancelled_ctx)) = 0 \<and>
   Upload_doneSize 4 0 (snd (TrySuperFile2Upload second_try_SuperFile2Upload cancelled_ctx)) = - 190 \<and>
   Upload_doneSize 4 0 (snd (TrySuperFile2Upload second_try_SuperFile2Upload cancelled_ctx)) \<noteq> 0"
proof -
  have u: "TrySuperFile2Upload second_try_SuperFile2Upload cancelled_ctx
      = ((zero_SuperFile2UploadResponse, Some (OtherError ''http error status: 500'')),
         [Attempt 0, Progress 194, Progress (- 194)])"
    by (simp add: TrySuperFile2Upload_def TrySuperFile2Upload_loop.simps
          second_try_SuperFile2Upload_def cancelled_ctx_def Let_def)
  show ?thesis
    unfolding u by (simp add: word_sless_alt)
qed

text \<open>
  C3, as the code has it. Neither loop looks at the context before an attempt; each looks
  at \<open>ctx.Err()\<close> once after every failed attempt. If attempt \<open>n\<close> is the first failed
  attempt after which the context is found cancelled, the loop has made exactly the
  attempts \<open>0 .. n\<close>, stops there without sleeping again, and returns the error of
  attempt \<open>n\<close>.
\<close>

theorem retry_stops_after_failed_attempt_when_cancelled:
  assumes "n < 10"
    and "\<forall>j<n. da_err (downloadPart j) \<noteq> None \<and> ctx_Err j = None"
    and "da_err (downloadPart n) \<noteq> None" and "ctx_Err n \<noteq> None"
    and "m < 10"
    and "\<forall>j<m. ua_err (SuperFile2Upload j) \<noteq> None \<and> ctx_Err' j = None"
    and "ua_err (SuperFile2Upload m) \<noteq> None" and "ctx_Err' m \<noteq> None"
  shows "snd (fst (tryDownloadPart downloadPart ctx_Err part)) = da_err (downloadPart n) \<and>
         attempts_of (snd (tryDownloadPart downloadPart ctx_Err part)) = [0..<Suc n] \<and>
         snd (tryDownloadPart downloadPart ctx_Err part)
           = concat (map (download_attempt_events part downloadPart) [0..<Suc n]) \<and>
         snd (fst (TrySuperFile2Upload SuperFile2Upload ctx_Err')) = ua_err (SuperFile2Upload m) \<and>
         attempts_of (snd (TrySuperFile2Upload SuperFile2Upload ctx_Err')) = [0..<Suc m] \<and>
         snd (TrySuperFile2Upload SuperFile2Upload ctx_Err')
           = concat (map (upload_attempt_events SuperFile2Upload) [0..<Suc m])"
proof -
  have d: "tryDownloadPart downloadPart ctx_Err part =
          ((downloadPart_retPart part (downloadPart n), da_err (downloadPart n)),
           concat (map (download_attempt_events part downloadPart) [0..<Suc n]))"
    unfolding tryDownloadPart_def using assms(1-4) by (intro tryDownloadPart_loop_run) auto
  have u: "TrySuperFile2Upload SuperFile2Upload ctx_Err' =
          ((ua_resp (SuperFile2Upload m), ua_err (SuperFile2Upload m)),
           concat (map (upload_attempt_events SuperFile2Upload) [0..<Suc m]))"
    unfolding TrySuperFile2Upload_def using assms(5-8) by (intro TrySuperFile2Upload_loop_run) auto
  have "attempts_of (concat (map (download_attempt_events part downloadPart) [0..<Suc n])) = [0..<Suc n]"
    by (intro attempts_of_concat) (simp add: attempts_of_download_attempt)
  moreover have "attempts_of (concat (map (upload_attempt_events SuperFile2Upload) [0..<Suc m])) = [0..<Suc m]"
    by (intro attempts_of_concat) (simp add: attempts_of_upload_attempt)
  ultimately show ?thesis
    unfolding d u by simp
qed

theorem retry_stops_after_failed_attempt_when_cancelled_witness:
  "snd (fst (tryDownloadPart status_500_downloadPart cancelled_after_second zero_Part))
     = Some (OtherError ''status 500'') \<and>
   attempts_of (snd (tryDownloadPart status_500_downloadPart cancelled_after_second zero_Part)) = [0, 1] \<and>
   snd (fst (TrySuperFile2Upload status_500_SuperFile2Upload cancelled_after_second))
     = Some (OtherError ''http error status: 500'') \<and>
   attempts_of (snd (TrySuperFile2Upload status_500_SuperFile2Upload cancelled_after_second)) = [0, 1]"
proof -
  have up: "[0..<Suc 1] = [0, 1]" by (simp add: upt_conv_Cons)
  have r: "snd (fst (tryDownloadPart status_500_downloadPart cancelled_after_second zero_Part))
             = da_err (status_500_downloadPart 1) \<and>
           attempts_of (snd (tryDownloadPart status_500_downloadPart cancelled_after_second zero_Part))
             = [0..<Suc 1] \<and>
           snd (tryDownloadPart status_500_downloadPart cancelled_after_second zero_Part)
             = concat (map (download_attempt_events zero_Part status_500_downloadPart) [0..<Suc 1]) \<and>
           snd (fst (TrySuperFile2Upload status_500_SuperFile2Upload cancelled_after_second))
             = ua_err (status_500_SuperFile2Upload 1) \<and>
           attempts_of (snd (TrySuperFile2Upload status_500_SuperFile2Upload cancelled_after_second))
             = [0..<Suc 1] \<and>
           snd (TrySuperFile2Upload status_500_SuperFile2Upload cancelled_after_second)
             = concat (map (upload_attempt_events status_500_SuperFile2Upload) [0..<Suc 1])"
    by (rule retry_stops_after_failed_attempt_when_cancelled)
       (simp_all add: status_500_downloadPart_def status_500_SuperFile2Upload_def
          cancelled_after_second_def)
  have e1: "da_err (status_500_downloadPart 1) = Some (OtherError ''status 500'')"
    by (simp add: status_500_downloadPart_def)
  have e2: "ua_err (status_500_SuperFile2Upload 1) = Some (OtherError ''http error status: 500'')"
    by (simp add: status_500_SuperFile2Upload_def)
  from r show ?thesis
    unfolding up e1 e2 by blast
qed

text \<open>
  C3 as stated fails. With every attempt answered by a server error and the context
  cancelled at every check, both loops still make attempt 0, and both return the error of
  that attempt, not \<open>context.Canceled\<close>.
\<close>

theorem retry_cancelled_counterexample:
  "tryDownloadPart status_500_downloadPart cancelled_ctx zero_Part
     = ((zero_Part, Some (OtherError ''status 500'')), [Attempt 0, Progress 0]) \<and>
   TrySuperFile2Upload status_500_SuperFile2Upload cancelled_ctx
     = ((zero_SuperFile2UploadResponse, Some (OtherError ''http error status: 500'')),
        [Attempt 0, Progress 0]) \<and>
   OtherError ''status 500'' \<noteq> ContextCanceled \<and>
   OtherError ''http error status: 500'' \<noteq> ContextCanceled"
  by (simp add: tryDownloadPart_def tryDownloadPart_loop.simps status_500_downloadPart_def
        TrySuperFile2Upload_def TrySuperFile2Upload_loop.simps status_500_SuperFile2Upload_def
        cancelled_ctx_def downloadPart_retPart_def zero_Part_def Let_def)

section \<open>Upload and ResumeUpload\<close>

lemma goroutine_steps_idle:
  "pr_running st = [] \<Longrightarrow> (goroutine_step w u uploadID ^^ n) st = st"
  by (induction n) (simp_all add: goroutine_step_def)

lemma drain_idle: "pr_running st = [] \<Longrightarrow> drain w u uploadID st = st"
  by (subst drain.simps) simp

lemma ResumeUpload_produce_all_done:
  assumes "\<not> pr_hasFailed st" and "pr_running st = []"
    and "\<forall>j. i \<le> j \<and> int j < us_SliceNum rs \<longrightarrow> admit_ctx_Err w j = None \<and> us_DoneSlices rs ! j \<noteq> []"
  shows "pr_requests (ResumeUpload_produce w u rs content i st) = pr_requests st \<and>
         pr_chan (ResumeUpload_produce w u rs content i st) = pr_chan st \<and>
         pr_panic (ResumeUpload_produce w u rs content i st) = pr_panic st \<and>
         pr_uploadErr (ResumeUpload_produce w u rs content i st) = pr_uploadErr st \<and>
         pr_running (ResumeUpload_produce w u rs content i st) = []"
  using assms
proof (induction w u rs content i st rule: ResumeUpload_produce.induct)
  case (1 w u rs content i st)
  show ?case
  proof (cases "int i < us_SliceNum rs")
    case False
    then show ?thesis
      using "1.prems"(2) by (subst (1 2 3 4 5) ResumeUpload_produce.simps) simp
  next
    case True
    then have live: "admit_ctx_Err w i = None" and recorded: "us_DoneSlices rs ! i \<noteq> []"
      using "1.prems"(3) by auto
    have idle: "(goroutine_step w u (us_UploadId rs) ^^ sched_run w i) st = st"
      using "1.prems"(2) by (rule goroutine_steps_idle)
    let ?st' = "st\<lparr>pr_offset := pr_offset st + us_SliceSize rs\<rparr>"
    have step: "ResumeUpload_produce w u rs content i st
                  = ResumeUpload_produce w u rs content (Suc i) ?st'"
      using True live recorded "1.prems"(1)
      by (subst ResumeUpload_produce.simps) (simp add: idle)
    have "pr_requests (ResumeUpload_produce w u rs content (Suc i) ?st') = pr_requests ?st' \<and>
          pr_chan (ResumeUpload_produce w u rs content (Suc i) ?st') = pr_chan ?st' \<and>
          pr_panic (ResumeUpload_produce w u rs content (Suc i) ?st') = pr_panic ?st' \<and>
          pr_uploadErr (ResumeUpload_produce w u rs content (Suc i) ?st') = pr_uploadErr ?st' \<and>
          pr_running (ResumeUpload_produce w u rs content (Suc i) ?st') = []"
      using True live recorded "1.prems" idle
      by (intro "1.IH" [where x = "st"]) auto
    then show ?thesis unfolding step by simp
  qed
qed

lemma GetFileInfo_open:
  "local_file w = Some content \<Longrightarrow>
   \<exists>u'. GetFileInfo w u =
     (Inr (if Md5 (FileInfo u) \<noteq> [] then FileInfo u
           else \<lparr>Md5 = md5_hex w content, Size = of_nat (length content), ModTime = local_mtime w\<rparr>), u')
     \<and> Path u' = Path u"
  by (simp add: GetFileInfo_def Let_def)

lemma Create_requests:
  assumes "local_file w = Some content"
  shows "snd (Create w u uploadID blockList) =
           [CreateRequest (Path u) uploadID blockList
              (if Md5 (FileInfo u) \<noteq> [] then Size (FileInfo u) else of_nat (length content))]"
  using assms
  by (auto simp add: Create_def GetFileInfo_def Let_def split: sum.splits)

text \<open>
  A run of \<open>Upload\<close> that admits slices, evaluated: slices 0 and 1 are in flight together
  and their attempts alternate; slice 2 is admitted once one of them has returned its
  permit; the commit carries the digests in slice order.
\<close>

lemma Upload_three_slices_trace:
  "fst (Upload three_slice_world
          ((NewUploader ''token'' ''/apps/x/ten.bin'' ''/tmp/ten.bin'')\<lparr>SliceSize := 4\<rparr>)) =
     [PreCreateRequest ''/apps/x/ten.bin'' 10
        [''md5-0'', ''md5-1'', ''md5-2''] ''md5-file'' ''md5-file'',
      SuperFile2Request ''/apps/x/ten.bin'' ''N1-upload'' 0 0 [1, 2, 3, 4],
      SuperFile2Request ''/apps/x/ten.bin'' ''N1-upload'' 1 0 [5, 6, 7, 8],
      SuperFile2Request ''/apps/x/ten.bin'' ''N1-upload'' 0 1 [1, 2, 3, 4],
      SuperFile2Request ''/apps/x/ten.bin'' ''N1-upload'' 1 1 [5, 6, 7, 8],
      SuperFile2Request ''/apps/x/ten.bin'' ''N1-upload'' 2 0 [9, 10],
      SuperFile2Request ''/apps/x/ten.bin'' ''N1-upload'' 2 1 [9, 10],
      CreateRequest ''/apps/x/ten.bin'' ''N1-upload'' [''md5-0'', ''md5-1'', ''md5-2''] 10]"
  by code_simp

text \<open>
  C8. Take a snapshot whose \<open>done_slices\<close> has \<open>slice_num\<close> entries (the invariant of
  the snapshot), all of them non-empty. If the local file can be opened and the context
  is not cancelled when the producer loop checks it, \<open>ResumeUpload\<close> issues exactly one
  request: the commit, for the snapshot's upload id, with the snapshot's \<open>done_slices\<close>
  in index order as block list. No slice is uploaded.
\<close>

theorem ResumeUpload_all_done_only_commits:
  assumes "\<forall>md5 \<in> set (us_DoneSlices snapshot). md5 \<noteq> []"
    and "int (length (us_DoneSlices snapshot)) = us_SliceNum snapshot"
    and "local_file w = Some content"
    and "\<forall>i < length (us_DoneSlices snapshot). admit_ctx_Err w i = None"
  shows "fst (ResumeUpload w u snapshot) =
           [CreateRequest (Path u) (us_UploadId snapshot) (us_DoneSlices snapshot)
              (if Md5 (FileInfo u) \<noteq> [] then Size (FileInfo u) else of_nat (length content))]"
proof -
  have n: "nat (us_SliceNum snapshot) = length (us_DoneSlices snapshot)"
    using assms(2) by simp
  have copy: "snapshot\<lparr>us_DoneSlices := take (nat (us_SliceNum snapshot)) (us_DoneSlices snapshot) @
                replicate (nat (us_SliceNum snapshot) - length (us_DoneSlices snapshot)) []\<rparr> = snapshot"
    unfolding n by simp
  let ?st = "ResumeUpload_produce w u snapshot content 0 (producer_start [])"
  have "\<forall>j. 0 \<le> j \<and> int j < us_SliceNum snapshot \<longrightarrow>
          admit_ctx_Err w j = None \<and> us_DoneSlices snapshot ! j \<noteq> []"
    using assms(1,2,4) by (auto simp: all_set_conv_all_nth)
  then have st: "pr_requests ?st = []" "pr_chan ?st = []" "pr_panic ?st = None" "pr_uploadErr ?st = None"
      "pr_running ?st = []"
    using ResumeUpload_produce_all_done [of "producer_start []" 0 snapshot w u content]
    by (simp_all add: producer_start_def)
  have drained: "drain w u (us_UploadId snapshot) ?st = ?st"
    using st(5) by (rule drain_idle)
  have nonneg: "\<not> us_SliceNum snapshot < 0" using assms(2) by linarith
  have "ResumeUpload w u snapshot =
          Upload_commit w u (us_UploadId snapshot) (us_DoneSlices snapshot) []
            \<lparr>co_ret = zero_UploadResponse, co_uploadErr = None, co_blockList = [], co_snapshot = snapshot\<rparr>"
    unfolding ResumeUpload_def Let_def copy
    using nonneg assms(3) by (simp add: drained st)
  then show ?thesis
    using Create_requests [OF assms(3), of u "us_UploadId snapshot" "us_DoneSlices snapshot"]
    by (auto simp add: Upload_commit_def split: prod.splits option.splits)
qed

theorem ResumeUpload_all_done_only_commits_witness:
  "fst (ResumeUpload ten_byte_world (NewUploader ''token'' ''/apps/x/ten.bin'' ''/tmp/ten.bin'')
          all_done_snapshot)
     = [CreateRequest ''/apps/x/ten.bin'' ''N1-upload'' [''md5-0'', ''md5-1'', ''md5-2''] 10] \<and>
   filter is_SuperFile2Request
     (fst (ResumeUpload ten_byte_world (NewUploader ''token'' ''/apps/x/ten.bin'' ''/tmp/ten.bin'')
             all_done_snapshot)) = []"
proof -
  have "fst (ResumeUpload ten_byte_world (NewUploader ''token'' ''/apps/x/ten.bin'' ''/tmp/ten.bin'')
          all_done_snapshot)
     = [CreateRequest (Path (NewUploader ''token'' ''/apps/x/ten.bin'' ''/tmp/ten.bin''))
          (us_UploadId all_done_snapshot) (us_DoneSlices all_done_snapshot)
          (if Md5 (FileInfo (NewUploader ''token'' ''/apps/x/ten.bin'' ''/tmp/ten.bin'')) \<noteq> []
           then Size (FileInfo (NewUploader ''token'' ''/apps/x/ten.bin'' ''/tmp/ten.bin''))
           else of_nat (length [1, 2, 3, 4, 5, 6, 7, 8, 9, 10 :: byte]))]"
    by (rule ResumeUpload_all_done_only_commits)
       (simp_all add: all_done_snapshot_def zero_UploadSnapshot_def ten_byte_world_def
          zero_byte_world_def live_ctx_def)
  then show ?thesis
    by (simp add: all_done_snapshot_def zero_UploadSnapshot_def NewUploader_def
          handleSpecialChar_def specialChars_def zero_LocalFileInfo_def)
qed

text \<open>
  C2, evaluated on the code. For a zero-byte file whose uploader has no preset slice size
  and whose account lookup succeeds, \<open>GetSliceSize\<close> clamps the slice size to the file
  size, 0, and \<open>sliceNum\<close> is \<open>int(math.Ceil(0.0 / 0.0)) = int(NaN)\<close>, which Go leaves to
  the implementation. On amd64 it is \<open>-2^63\<close>: after the precreate request,
  \<open>make(chan UploadPartResponse, sliceNum)\<close> panics, no commit is issued and \<open>Upload\<close>
  does not return. Where the conversion yields 0 (arm64), the run is the one the claim
  describes.
\<close>

theorem Upload_zero_byte_file_amd64_panics:
  "Upload zero_byte_world (NewUploader ''token'' ''/apps/x/empty.txt'' ''/tmp/empty.txt'')
     = ([UserInfoRequest ''token'',
         PreCreateRequest ''/apps/x/empty.txt'' 0 [''d41d8cd98f00b204e9800998ecf8427e'']
           ''d41d8cd98f00b204e9800998ecf8427e'' ''d41d8cd98f00b204e9800998ecf8427e'',
         UserInfoRequest ''token''],
        Panic MakechanSizeOutOfRange) \<and>
   fst (Upload (zero_byte_world\<lparr>float_oor := oor_arm64\<rparr>)
          (NewUploader ''token'' ''/apps/x/empty.txt'' ''/tmp/empty.txt''))
     = [UserInfoRequest ''token'',
        PreCreateRequest ''/apps/x/empty.txt'' 0 [''d41d8cd98f00b204e9800998ecf8427e'']
          ''d41d8cd98f00b204e9800998ecf8427e'' ''d41d8cd98f00b204e9800998ecf8427e'',
        UserInfoRequest ''token'',
        CreateRequest ''/apps/x/empty.txt'' ''N1-upload'' [] 0]"
  by code_simp

section \<open>The part scheduler\<close>

lemma sched_step_invariant:
  assumes "sched_step cap jobs s s'"
    and "finite (in_flight s)" "finite (responded s)" "in_flight s \<inter> responded s = {}"
    and "card (in_flight s) + card (responded s) + (if acquired s then 1 else 0) = sem s"
    and "sem s \<le> cap"
    and "\<forall>j \<in> in_flight s \<union> responded s. j < next_job s"
  shows "finite (in_flight s') \<and> finite (responded s') \<and> in_flight s' \<inter> responded s' = {} \<and>
         card (in_flight s') + card (responded s') + (if acquired s' then 1 else 0) = sem s' \<and>
         sem s' \<le> cap \<and>
         (\<forall>j \<in> in_flight s' \<union> responded s'. j < next_job s')"
  using assms
proof (cases rule: sched_step.cases)
  case acquire
  then show ?thesis using assms(2-7) by auto
next
  case spawn
  have fresh: "next_job s \<notin> in_flight s" "next_job s \<notin> responded s"
    using assms(7) by auto
  then show ?thesis using spawn assms(2-7) by (auto simp: less_Suc_eq)
next
  case skip
  then show ?thesis using assms(2-7) by (auto simp: less_Suc_eq)
next
  case (respond j)
  then have "j \<notin> responded s" using assms(4) by auto
  moreover have "0 < card (in_flight s)" using respond(2) assms(2) by (auto simp: card_gt_0_iff)
  ultimately show ?thesis using respond assms(2-7) by auto
next
  case (release j)
  then have "0 < card (responded s)" using assms(3) by (auto simp: card_gt_0_iff)
  then show ?thesis using release assms(2-7) by auto
qed

lemma sched_reachable_invariant:
  assumes "sched_reachable cap jobs s"
  shows "finite (in_flight s) \<and> finite (responded s) \<and> in_flight s \<inter> responded s = {} \<and>
         card (in_flight s) + card (responded s) + (if acquired s then 1 else 0) = sem s \<and>
         sem s \<le> cap \<and>
         (\<forall>j \<in> in_flight s \<union> responded s. j < next_job s)"
  using assms
proof (induction rule: sched_reachable.induct)
  case start
  then show ?case by (simp add: sched_start_def)
next
  case (step s s')
  then show ?case using sched_step_invariant [of cap jobs s s'] by blast
qed

text \<open>
  C9. In every state the scheduler can reach, the number of parts in flight is at most
  the number of values held by the semaphore channel, which is at most its capacity:
  \<open>PartCoroutineNum\<close> clamped to the number of planned parts. A goroutine is spawned only
  for a permit acquired before (\<open>spawn\<close> needs \<open>acquired\<close>).
\<close>

theorem in_flight_bounded_by_semaphore:
  assumes "sem_capacity PartCoroutineNum totalPart = Inr cap"
    and "sched_reachable cap jobs s"
  shows "int (card (in_flight s)) \<le> PartCoroutineNum \<and>
         int (card (in_flight s)) \<le> totalPart \<and>
         card (in_flight s) \<le> sem s \<and> sem s \<le> cap"
proof -
  from sched_reachable_invariant [OF assms(2)]
  have "card (in_flight s) \<le> sem s" and "sem s \<le> cap" by auto
  moreover from assms(1) have "int cap \<le> PartCoroutineNum" and "int cap \<le> totalPart"
    by (auto simp: sem_capacity_def Let_def split: if_splits)
  ultimately show ?thesis by linarith
qed

theorem in_flight_bounded_by_semaphore_witness:
  "sem_capacity 5 10 = Inr 5 \<and>
   sched_reachable 5 10
     \<lparr>next_job = 1, acquired = False, sem = 1, in_flight = {0}, responded = {}\<rparr> \<and>
   int (card (in_flight \<lparr>next_job = 1, acquired = False, sem = 1, in_flight = {0}, responded = {}\<rparr>)) \<le> 5"
proof -
  have cap: "sem_capacity 5 10 = Inr 5" by (simp add: sem_capacity_def)
  have s1: "sched_step 5 10 sched_start (sched_start\<lparr>acquired := True, sem := sem sched_start + 1\<rparr>)"
    by (rule sched_step.acquire) (simp_all add: sched_start_def)
  have s2: "sched_step 5 10 (sched_start\<lparr>acquired := True, sem := sem sched_start + 1\<rparr>)
              \<lparr>next_job = 1, acquired = False, sem = 1, in_flight = {0}, responded = {}\<rparr>"
    using sched_step.spawn [of "sched_start\<lparr>acquired := True, sem := sem sched_start + 1\<rparr>" 5 10]
    by (simp add: sched_start_def)
  have r: "sched_reachable 5 10
             \<lparr>next_job = 1, acquired = False, sem = 1, in_flight = {0}, responded = {}\<rparr>"
    by (rule sched_reachable.step [OF sched_reachable.step [OF sched_reachable.start s1] s2])
  from in_flight_bounded_by_semaphore [OF cap r] cap r show ?thesis by simp
qed

end
